theory Spec2Isabelle
  imports Main "HOL-Library.Word"
begin

section \<open>JavaScript values\<close>

text \<open>
  A JavaScript string is a sequence of 16-bit code units, a \<open>Buffer\<close> a sequence of
  bytes.  Property names and role names are plain identifiers and are written as
  HOL strings.
\<close>

type_synonym code_unit = "16 word"
type_synonym jsstring = "code_unit list"
type_synonym byte = "8 word"
type_synonym Buffer = "byte list"

text \<open>
  The values a parsed JSON request body holds, with \<open>JUndefined\<close> for a property that
  is absent.  Numbers are integers here: the code only tests them for truthiness.
\<close>

datatype json =
    JUndefined
  | JNull
  | JBool bool
  | JNum int
  | JStr jsstring
  | JArr "json list"
  | JObj "(string \<times> json) list"

text \<open>JavaScript truthiness, as \<open>if (v)\<close>, \<open>!v\<close>, \<open>&&\<close> and \<open>||\<close> read a value.\<close>

fun truthy :: "json \<Rightarrow> bool" where
  "truthy JUndefined = False"
| "truthy JNull = False"
| "truthy (JBool b) = b"
| "truthy (JNum n) = (n \<noteq> 0)"
| "truthy (JStr s) = (s \<noteq> [])"
| "truthy (JArr xs) = True"
| "truthy (JObj kvs) = True"

text \<open>
  \<open>v.k\<close> for a named property \<open>k\<close>: the property of an object, \<open>undefined\<close> on
  every other value the code reads it from (the reads are guarded by \<open>&&\<close> or \<open>?.\<close>,
  so \<open>null\<close> and \<open>undefined\<close> never reach a plain property access).
\<close>

fun getProp :: "json \<Rightarrow> string \<Rightarrow> json" where
  "getProp (JObj kvs) k = (case map_of kvs k of Some v \<Rightarrow> v | None \<Rightarrow> JUndefined)"
| "getProp v k = JUndefined"

fun assoc_set :: "(string \<times> json) list \<Rightarrow> string \<Rightarrow> json \<Rightarrow> (string \<times> json) list" where
  "assoc_set [] k v = [(k, v)]"
| "assoc_set ((k', v') # kvs) k v =
     (if k' = k then (k, v) # kvs else (k', v') # assoc_set kvs k v)"

text \<open>\<open>o.k = v\<close> on an object.\<close>

fun setProp :: "json \<Rightarrow> string \<Rightarrow> json \<Rightarrow> json" where
  "setProp (JObj kvs) k v = JObj (assoc_set kvs k v)"
| "setProp w k v = w"

section \<open>Data model (models/Verification.ts, models/User.ts)\<close>

datatype VerificationStatus = pending | approved | rejected | incomplete

text \<open>\<open>VerificationLevel = 0 | 1 | 2 | 3\<close>; roles are the strings of \<open>VerificationRole\<close>.\<close>

type_synonym VerificationLevel = nat
type_synonym VerificationRole = string

text \<open>
  The evidence sections and contact fields of \<open>IVerification\<close>, the part of a
  document a submitter is meant to fill in; their values are kept as JSON.
\<close>

datatype evidence_field =
    country | phoneNumber | phoneVerified | emailVerified
  | personalInfo | idProof | educationInfo | profilePicture | additionalDocuments
  | socialProfiles | professionalCredentials | experienceProof | bankDetails
  | companyInfo | companyKYC | investorInfo | taxCompliance | investmentBankDetails
  | sponsorInfo | sponsorKYC | videoVerification | addressProof

text \<open>
  A verification document; \<open>vid\<close> is its \<open>_id\<close>.  The timestamps \<open>createdAt\<close> and
  \<open>updatedAt\<close> and the version key are left out.
\<close>

record IVerification =
  vid :: nat
  userId :: nat
  role :: VerificationRole
  verificationLevel :: VerificationLevel
  status :: VerificationStatus
  evidence :: "evidence_field \<Rightarrow> json"
  reviewedBy :: "nat option"
  reviewedAt :: "nat option"
  rejectionReason :: "string option"
  adminNotes :: "string option"
  submittedAt :: nat

text \<open>
  The paths of a user document the verification code reads or writes.
  \<open>verificationLevels\<close> is \<open>None\<close> when the database holds no object for the
  path; a document loaded from it then carries the schema's default, an empty object.
\<close>

record IUser =
  isEmailVerified :: bool
  roles :: "VerificationRole list"
  primaryRole :: "VerificationRole option"
  verificationLevels :: "(VerificationRole \<rightharpoonup> VerificationLevel) option"

text \<open>
  The persistence layer: the connection state, the \<open>User\<close> collection by id, the
  \<open>Verification\<close> collection in insertion order, and whether that collection has
  a unique index on \<open>{ userId, role }\<close>.  The schema declares a plain index on
  these keys (``Compound indexes'') and after it a unique index on the same keys
  (``Prevent duplicate verifications per user-role''), which has the same name; a
  database holds one index of a name, and whether the one it holds is the unique one
  is a fact of that database, kept here as part of the state.
\<close>

record database =
  connected :: bool
  uniqueIndex :: bool
  User :: "nat \<rightharpoonup> IUser"
  Verification :: "IVerification list"

section \<open>Level derivation (verificationController.ts, lines 46--73)\<close>

text \<open>
  The four \<open>if\<close> statements of \<open>submitVerification\<close>, in the order of the source; each
  one that holds assigns \<open>determinedLevel\<close>.
\<close>

definition l1_predicate :: "(evidence_field \<Rightarrow> json) \<Rightarrow> bool" where
  "l1_predicate verificationData \<longleftrightarrow>
     truthy (verificationData idProof) \<and>
     truthy (getProp (verificationData idProof) ''documentUrl'')"

definition l2_predicate :: "VerificationRole \<Rightarrow> (evidence_field \<Rightarrow> json) \<Rightarrow> bool" where
  "l2_predicate r verificationData \<longleftrightarrow>
     (r = ''student'' \<and> truthy (verificationData educationInfo)) \<or>
     (r = ''mentor'' \<and> truthy (verificationData professionalCredentials)
        \<and> truthy (verificationData bankDetails)) \<or>
     (r = ''employer'' \<and> truthy (verificationData companyKYC)) \<or>
     (r = ''investor'' \<and> truthy (verificationData taxCompliance)
        \<and> truthy (verificationData investmentBankDetails)) \<or>
     (r = ''sponsor'' \<and> truthy (verificationData sponsorKYC))"

definition l3_predicate :: "(evidence_field \<Rightarrow> json) \<Rightarrow> bool" where
  "l3_predicate verificationData \<longleftrightarrow>
     truthy (verificationData addressProof) \<and> truthy (verificationData videoVerification)"

definition determineLevel ::
  "IUser \<Rightarrow> VerificationRole \<Rightarrow> (evidence_field \<Rightarrow> json) \<Rightarrow> VerificationLevel" where
  "determineLevel u r verificationData =
     (let determinedLevel = 0;
          determinedLevel = (if isEmailVerified u then 0 else determinedLevel);
          determinedLevel = (if l1_predicate verificationData then 1 else determinedLevel);
          determinedLevel = (if l2_predicate r verificationData then 2 else determinedLevel);
          determinedLevel = (if l3_predicate verificationData then 3 else determinedLevel)
      in determinedLevel)"

section \<open>Node.js string and buffer encodings\<close>

text \<open>
  \<open>Buffer.from(s, 'utf8')\<close>, \<open>cipher.update(s, 'utf8')\<close> and \<open>buf.toString('utf8')\<close>
  belong to the Node.js runtime, not to the repository.  They are modelled here from
  their documented behaviour: a string is read as UTF-16, an unpaired surrogate is
  written as U+FFFD, and the decoder replaces every ill-formed sequence by U+FFFD
  (in the steps of the WHATWG UTF-8 decoder).
\<close>

definition is_high_surrogate :: "nat \<Rightarrow> bool" where
  "is_high_surrogate u \<longleftrightarrow> 0xD800 \<le> u \<and> u \<le> 0xDBFF"

definition is_low_surrogate :: "nat \<Rightarrow> bool" where
  "is_low_surrogate u \<longleftrightarrow> 0xDC00 \<le> u \<and> u \<le> 0xDFFF"

definition lone_unit :: "nat \<Rightarrow> nat" where
  "lone_unit u = (if is_high_surrogate u \<or> is_low_surrogate u then 0xFFFD else u)"

text \<open>The code points of a sequence of UTF-16 code units.\<close>

fun utf16_code_points :: "nat list \<Rightarrow> nat list" where
  "utf16_code_points [] = []"
| "utf16_code_points [u] = [lone_unit u]"
| "utf16_code_points (u # v # us) =
     (if is_high_surrogate u \<and> is_low_surrogate v
      then (0x10000 + (u - 0xD800) * 0x400 + (v - 0xDC00)) # utf16_code_points us
      else lone_unit u # utf16_code_points (v # us))"

definition utf16_units :: "nat \<Rightarrow> nat list" where
  "utf16_units cp =
     (if cp < 0x10000 then [cp]
      else [0xD800 + (cp - 0x10000) div 0x400, 0xDC00 + (cp - 0x10000) mod 0x400])"

definition utf8_bytes :: "nat \<Rightarrow> nat list" where
  "utf8_bytes cp =
     (if cp < 0x80 then [cp]
      else if cp < 0x800 then [0xC0 + cp div 64, 0x80 + cp mod 64]
      else if cp < 0x10000 then
        [0xE0 + cp div 4096, 0x80 + (cp div 64) mod 64, 0x80 + cp mod 64]
      else
        [0xF0 + cp div 262144, 0x80 + (cp div 4096) mod 64,
         0x80 + (cp div 64) mod 64, 0x80 + cp mod 64])"

definition utf8_encode :: "jsstring \<Rightarrow> Buffer" where
  "utf8_encode s = map of_nat (concat (map utf8_bytes (utf16_code_points (map unat s))))"

text \<open>
  The decoder's state: the code point collected so far, the continuation bytes still
  needed, and the bounds the next continuation byte must lie in.
\<close>

type_synonym utf8_state = "nat \<times> nat \<times> nat \<times> nat"

definition utf8_initial :: utf8_state where
  "utf8_initial = (0, 0, 0x80, 0xBF)"

text \<open>
  A byte read with no sequence open: either a code point is emitted at once, or a
  sequence opens.
\<close>

definition utf8_lead :: "nat \<Rightarrow> nat list \<times> utf8_state" where
  "utf8_lead b =
     (if b \<le> 0x7F then ([b], utf8_initial)
      else if 0xC2 \<le> b \<and> b \<le> 0xDF then ([], (b mod 32, 1, 0x80, 0xBF))
      else if 0xE0 \<le> b \<and> b \<le> 0xEF then
        ([], (b mod 16, 2, if b = 0xE0 then 0xA0 else 0x80, if b = 0xED then 0x9F else 0xBF))
      else if 0xF0 \<le> b \<and> b \<le> 0xF4 then
        ([], (b mod 8, 3, if b = 0xF0 then 0x90 else 0x80, if b = 0xF4 then 0x8F else 0xBF))
      else ([0xFFFD], utf8_initial))"

fun utf8_run :: "utf8_state \<Rightarrow> nat list \<Rightarrow> nat list" where
  "utf8_run (cp, needed, lo, hi) [] = (if needed = 0 then [] else [0xFFFD])"
| "utf8_run (cp, needed, lo, hi) (b # bs) =
     (if needed = 0 then fst (utf8_lead b) @ utf8_run (snd (utf8_lead b)) bs
      else if b < lo \<or> hi < b then
        0xFFFD # fst (utf8_lead b) @ utf8_run (snd (utf8_lead b)) bs
      else if needed = 1 then (cp * 64 + b mod 64) # utf8_run utf8_initial bs
      else utf8_run (cp * 64 + b mod 64, needed - 1, 0x80, 0xBF) bs)"

definition utf8_decode :: "Buffer \<Rightarrow> jsstring" where
  "utf8_decode buf =
     map of_nat (concat (map utf16_units (utf8_run utf8_initial (map unat buf))))"

text \<open>
  \<open>buf.toString('base64')\<close> writes the RFC 4648 alphabet with \<open>=\<close> padding.
  \<open>Buffer.from(s, 'base64')\<close> reads every code unit by its low byte, accepts the
  standard and the URL-safe alphabet, skips every other character and stops at the
  first \<open>=\<close>.
\<close>

definition base64_char :: "nat \<Rightarrow> nat" where
  "base64_char i =
     (if i < 26 then 65 + i
      else if i < 52 then 97 + (i - 26)
      else if i < 62 then 48 + (i - 52)
      else if i = 62 then 43
      else 47)"

definition unbase64 :: "nat \<Rightarrow> nat option" where
  "unbase64 c =
     (if 65 \<le> c \<and> c \<le> 90 then Some (c - 65)
      else if 97 \<le> c \<and> c \<le> 122 then Some (c - 97 + 26)
      else if 48 \<le> c \<and> c \<le> 57 then Some (c - 48 + 52)
      else if c = 43 \<or> c = 45 then Some 62
      else if c = 47 \<or> c = 95 then Some 63
      else None)"

fun base64_groups :: "nat list \<Rightarrow> nat list" where
  "base64_groups (a # b # c # bs) =
     [base64_char (a div 4), base64_char ((a mod 4) * 16 + b div 16),
      base64_char ((b mod 16) * 4 + c div 64), base64_char (c mod 64)] @ base64_groups bs"
| "base64_groups [a, b] =
     [base64_char (a div 4), base64_char ((a mod 4) * 16 + b div 16),
      base64_char ((b mod 16) * 4), 61]"
| "base64_groups [a] = [base64_char (a div 4), base64_char ((a mod 4) * 16), 61, 61]"
| "base64_groups [] = []"

definition base64_encode :: "Buffer \<Rightarrow> jsstring" where
  "base64_encode buf = map of_nat (base64_groups (map unat buf))"

fun unbase64_groups :: "nat list \<Rightarrow> nat list" where
  "unbase64_groups (p # q # r # s # ss) =
     [p * 4 + q div 16, (q mod 16) * 16 + r div 4, (r mod 4) * 64 + s] @ unbase64_groups ss"
| "unbase64_groups [p, q, r] = [p * 4 + q div 16, (q mod 16) * 16 + r div 4]"
| "unbase64_groups [p, q] = [p * 4 + q div 16]"
| "unbase64_groups [p] = []"
| "unbase64_groups [] = []"

definition base64_decode :: "jsstring \<Rightarrow> Buffer" where
  "base64_decode s =
     map of_nat (unbase64_groups
       (List.map_filter unbase64
          (takeWhile (\<lambda>c. c \<noteq> 61) (map (\<lambda>u. unat u mod 256) s))))"

text \<open>
  A string is well-formed UTF-16 when every surrogate code unit belongs to a pair of a
  high surrogate followed by a low one.
\<close>

fun well_formed_utf16 :: "nat list \<Rightarrow> bool" where
  "well_formed_utf16 [] = True"
| "well_formed_utf16 [u] = (\<not> is_high_surrogate u \<and> \<not> is_low_surrogate u)"
| "well_formed_utf16 (u # v # us) =
     (if is_high_surrogate u \<and> is_low_surrogate v then well_formed_utf16 us
      else \<not> is_high_surrogate u \<and> \<not> is_low_surrogate u \<and> well_formed_utf16 (v # us))"

definition well_formed :: "jsstring \<Rightarrow> bool" where
  "well_formed s = well_formed_utf16 (map unat s)"

section \<open>Errors\<close>

text \<open>
  What a handler passes to \<open>next\<close> or throws: an \<open>AppError\<close> with its message and
  HTTP status, a plain \<open>Error\<close> with its message, the \<open>TypeError\<close> of a crypto call
  on a value that is no string, the duplicate-key error (E11000) of a unique index,
  and Mongoose's \<open>ValidationError\<close> and \<open>DocumentNotFoundError\<close>.
\<close>

datatype error =
    AppError string nat
  | Error string
  | TypeError
  | MongoDuplicateKey
  | ValidationError
  | DocumentNotFoundError

section \<open>Encryption utilities (utils/encryption.ts)\<close>

text \<open>
  What the module takes from its environment: the variable \<open>ENCRYPTION_KEY\<close>, the
  key derivation \<open>scryptSync(key, 'salt', 32)\<close>, and AES-256-GCM.  The cipher maps
  key, iv and plaintext to ciphertext and authentication tag; the decipher maps key,
  iv, tag and ciphertext to the plaintext, or to \<open>None\<close> when
  \<open>createDecipheriv\<close>, \<open>setAuthTag\<close>, \<open>update\<close> or \<open>final\<close> throws.
\<close>

record node_crypto =
  ENCRYPTION_KEY :: "jsstring option"
  scryptSync :: "jsstring \<Rightarrow> Buffer"
  gcm_cipher :: "Buffer \<Rightarrow> Buffer \<Rightarrow> Buffer \<Rightarrow> Buffer \<times> Buffer"
  gcm_decipher :: "Buffer \<Rightarrow> Buffer \<Rightarrow> Buffer \<Rightarrow> Buffer \<Rightarrow> Buffer option"

definition IV_LENGTH :: nat where "IV_LENGTH = 16"
definition SALT_LENGTH :: nat where "SALT_LENGTH = 64"
definition TAG_LENGTH :: nat where "TAG_LENGTH = 16"
definition TAG_POSITION :: nat where "TAG_POSITION = SALT_LENGTH + IV_LENGTH"
definition ENCRYPTED_POSITION :: nat where "ENCRYPTED_POSITION = TAG_POSITION + TAG_LENGTH"

text \<open>A string literal of the source as code units.\<close>

definition js :: "string \<Rightarrow> jsstring" where
  "js s = map (\<lambda>c. of_nat (of_char c)) s"

definition getEncryptionKey :: "node_crypto \<Rightarrow> error + Buffer" where
  "getEncryptionKey c =
     (let key = (case ENCRYPTION_KEY c of
                   Some k \<Rightarrow> if k \<noteq> [] then k
                             else js ''default-encryption-key-change-in-production-32-chars''
                 | None \<Rightarrow> js ''default-encryption-key-change-in-production-32-chars'')
      in if length key < 32
         then Inl (Error ''ENCRYPTION_KEY must be at least 32 characters long'')
         else Inr (scryptSync c key))"

text \<open>\<open>buf.subarray(start, end)\<close> and \<open>buf.subarray(start)\<close>, for \<open>start \<le> end\<close>.\<close>

definition subarray :: "Buffer \<Rightarrow> nat \<Rightarrow> nat \<Rightarrow> Buffer" where
  "subarray buf start end' = take (end' - start) (drop start buf)"

definition subarray_from :: "Buffer \<Rightarrow> nat \<Rightarrow> Buffer" where
  "subarray_from buf start = drop start buf"

text \<open>
  \<open>encrypt\<close>; \<open>iv\<close> and \<open>salt\<close> are what \<open>crypto.randomBytes(IV_LENGTH)\<close> and
  \<open>crypto.randomBytes(SALT_LENGTH)\<close> return in this call.
\<close>

definition encrypt :: "node_crypto \<Rightarrow> Buffer \<Rightarrow> Buffer \<Rightarrow> jsstring \<Rightarrow> error + jsstring" where
  "encrypt c iv salt text =
     (if text = [] then Inr text
      else case getEncryptionKey c of
        Inl e \<Rightarrow> Inl e
      | Inr key \<Rightarrow>
          (let (encrypted, tag) = gcm_cipher c key iv (utf8_encode text)
           in Inr (base64_encode (salt @ iv @ tag @ encrypted))))"

definition decrypt :: "node_crypto \<Rightarrow> jsstring \<Rightarrow> error + jsstring" where
  "decrypt c encryptedText =
     (if encryptedText = [] then Inr encryptedText
      else case getEncryptionKey c of
        Inl e \<Rightarrow> Inl (Error ''Failed to decrypt data. Invalid encrypted text or key.'')
      | Inr key \<Rightarrow>
          (let data = base64_decode encryptedText;
               salt = subarray data 0 SALT_LENGTH;
               iv = subarray data SALT_LENGTH TAG_POSITION;
               tag = subarray data TAG_POSITION ENCRYPTED_POSITION;
               encrypted = subarray_from data ENCRYPTED_POSITION
           in case gcm_decipher c key iv tag encrypted of
                None \<Rightarrow> Inl (Error ''Failed to decrypt data. Invalid encrypted text or key.'')
              | Some decrypted \<Rightarrow> Inr (utf8_decode decrypted)))"

text \<open>\<open>decrypt(encrypt(text))\<close>, in one environment.\<close>

definition decrypt_encrypt :: "node_crypto \<Rightarrow> Buffer \<Rightarrow> Buffer \<Rightarrow> jsstring \<Rightarrow> error + jsstring" where
  "decrypt_encrypt c iv salt text =
     (case encrypt c iv salt text of Inl e \<Rightarrow> Inl e | Inr blob \<Rightarrow> decrypt c blob)"

section \<open>Store operations (Mongoose calls of the controllers)\<close>

definition findById :: "database \<Rightarrow> nat \<Rightarrow> IVerification option" where
  "findById st i = find (\<lambda>v. vid v = i) (Verification st)"

text \<open>\<open>Verification.findOne({ userId, role })\<close>.\<close>

definition findOne :: "database \<Rightarrow> nat \<Rightarrow> VerificationRole \<Rightarrow> IVerification option" where
  "findOne st uid r = find (\<lambda>v. userId v = uid \<and> role v = r) (Verification st)"

text \<open>\<open>Verification.findOne({ userId, role, status: 'approved' })\<close>.\<close>

definition findOneApproved :: "database \<Rightarrow> nat \<Rightarrow> VerificationRole \<Rightarrow> IVerification option" where
  "findOneApproved st uid r =
     find (\<lambda>v. userId v = uid \<and> role v = r \<and> status v = approved) (Verification st)"

text \<open>
  What Mongoose does with the values of a document is taken as a parameter.
  \<open>cast_evidence\<close> is the casting and validation of the evidence and contact fields
  against \<open>VerificationSchema\<close>: the values as the document holds them, or \<open>None\<close>
  when a value is refused (a \<open>ValidationError\<close>, for instance an \<open>idProof.type\<close>
  outside its enum).  \<open>stored_evidence\<close> gives the values a later query returns for
  a document written with the given ones (an empty object is not written).
  \<open>update_other_id\<close> is the outcome of saving a loaded document whose \<open>_id\<close> has
  been reassigned.
\<close>

record mongoose_layer =
  cast_evidence :: "(evidence_field \<Rightarrow> json) \<Rightarrow> (evidence_field \<Rightarrow> json) option"
  stored_evidence :: "(evidence_field \<Rightarrow> json) \<Rightarrow> (evidence_field \<Rightarrow> json)"
  update_other_id :: "database \<Rightarrow> IVerification \<Rightarrow> IVerification \<Rightarrow> error + database"

definition schemaRoles :: "VerificationRole list" where
  "schemaRoles = [''student'', ''mentor'', ''employer'', ''investor'', ''sponsor'',
                  ''entrepreneur'', ''admin'']"

text \<open>
  Validation before a write: the enums of \<open>role\<close> and \<open>verificationLevel\<close>, and the
  casting of the evidence.  The result is the document as it is held in memory.
\<close>

definition validate :: "mongoose_layer \<Rightarrow> IVerification \<Rightarrow> error + IVerification" where
  "validate m v =
     (if role v \<notin> set schemaRoles \<or> 3 < verificationLevel v then Inl ValidationError
      else case cast_evidence m (evidence v) of
        None \<Rightarrow> Inl ValidationError
      | Some e \<Rightarrow> Inr (v\<lparr>evidence := e\<rparr>))"

text \<open>The document a query returns once \<open>v\<close> has been written.\<close>

definition stored :: "mongoose_layer \<Rightarrow> IVerification \<Rightarrow> IVerification" where
  "stored m v = v\<lparr>evidence := stored_evidence m (evidence v)\<rparr>"

fun replace_first :: "('a \<Rightarrow> bool) \<Rightarrow> 'a \<Rightarrow> 'a list \<Rightarrow> 'a list" where
  "replace_first P y [] = []"
| "replace_first P y (x # xs) = (if P x then y # xs else x # replace_first P y xs)"

text \<open>
  \<open>verification.save()\<close> of a document \<open>loaded\<close> from the collection of \<open>st\<close>, in
  its present state \<open>v\<close>: after validation, an update of the document with that
  \<open>_id\<close>.  The update fails when no such document is left and, under the unique
  index, when it moves the document onto the \<open>(userId, role)\<close> of another one.  The
  result is the document in memory and the database.
\<close>

definition save ::
  "mongoose_layer \<Rightarrow> database \<Rightarrow> IVerification \<Rightarrow> IVerification
     \<Rightarrow> error + (IVerification \<times> database)" where
  "save m st loaded v =
     (case validate m v of
        Inl e \<Rightarrow> Inl e
      | Inr v' \<Rightarrow>
          if vid v' \<noteq> vid loaded
          then (case update_other_id m st loaded v' of
                  Inl e \<Rightarrow> Inl e
                | Inr st' \<Rightarrow> Inr (v', st'))
          else if \<not> (\<exists>w \<in> set (Verification st). vid w = vid loaded)
          then Inl DocumentNotFoundError
          else if uniqueIndex st
                  \<and> (userId v' \<noteq> userId loaded \<or> role v' \<noteq> role loaded)
                  \<and> (\<exists>w \<in> set (Verification st).
                        vid w \<noteq> vid loaded \<and> userId w = userId v' \<and> role w = role v')
          then Inl MongoDuplicateKey
          else Inr (v', st\<lparr>Verification :=
                            replace_first (\<lambda>w. vid w = vid loaded) (stored m v')
                              (Verification st)\<rparr>))"

text \<open>
  \<open>Verification.create(doc)\<close>: after validation, an insert.  The insert is refused
  with the duplicate-key error when the \<open>_id\<close> is taken and, under the unique index,
  when the collection has a document for the same \<open>(userId, role)\<close>.
\<close>

definition create ::
  "mongoose_layer \<Rightarrow> database \<Rightarrow> IVerification \<Rightarrow> error + (IVerification \<times> database)" where
  "create m st v =
     (case validate m v of
        Inl e \<Rightarrow> Inl e
      | Inr v' \<Rightarrow>
          if (\<exists>w \<in> set (Verification st). vid w = vid v')
               \<or> (uniqueIndex st
                    \<and> (\<exists>w \<in> set (Verification st). userId w = userId v' \<and> role w = role v'))
          then Inl MongoDuplicateKey
          else Inr (v', st\<lparr>Verification := Verification st @ [stored m v']\<rparr>))"

text \<open>
  The schema's defaults for the fields a new document leaves undefined: the three
  declared defaults, and the empty array Mongoose gives every array path
  (\<open>additionalDocuments\<close>, \<open>professionalCredentials.certifications\<close>,
  \<open>experienceProof.specialization\<close>, \<open>investorInfo.investmentPreferences\<close>,
  \<open>investorInfo.portfolioCompanies\<close>).
\<close>

definition default_array :: "json \<Rightarrow> string \<Rightarrow> json" where
  "default_array sec k =
     (case sec of
        JUndefined \<Rightarrow> JObj [(k, JArr [])]
      | JObj kvs \<Rightarrow> (if map_of kvs k = None then JObj (kvs @ [(k, JArr [])]) else JObj kvs)
      | _ \<Rightarrow> sec)"

definition schema_defaults :: "(evidence_field \<Rightarrow> json) \<Rightarrow> (evidence_field \<Rightarrow> json)" where
  "schema_defaults d =
     (\<lambda>k. if k = country then (if d k = JUndefined then JStr (js ''IN'') else d k)
          else if k = phoneVerified \<or> k = emailVerified
            then (if d k = JUndefined then JBool False else d k)
          else if k = additionalDocuments then (if d k = JUndefined then JArr [] else d k)
          else if k = professionalCredentials then default_array (d k) ''certifications''
          else if k = experienceProof then default_array (d k) ''specialization''
          else if k = investorInfo
            then default_array (default_array (d k) ''investmentPreferences'') ''portfolioCompanies''
          else d k)"

text \<open>
  \<open>user.save()\<close> of a user document \<open>loaded\<close> from the collection, in its present
  state \<open>u\<close>, as \<open>approveVerification\<close> calls it.  The second pre-save hook of
  \<open>userSchema\<close> sets \<open>primaryRole\<close> from \<open>roles\<close>.  The path \<open>verificationLevels\<close> is
  of type \<open>Mixed\<close> (User.ts, lines 151--154): Mongoose marks it as changed only when
  it is assigned a value that differs from the one the document holds, and the object
  the handler assigns is the held one, mutated in place, with no \<open>markModified\<close>.  So
  the object is written only when the document had nothing stored for the path, in
  which case it holds the schema's default and a default that is not empty is
  written with the document.  The other paths of a user document are not modelled;
  they are taken to pass the validation of \<open>userSchema\<close>.
\<close>

definition user_save :: "database \<Rightarrow> nat \<Rightarrow> IUser \<Rightarrow> IUser \<Rightarrow> database" where
  "user_save st uid loaded u =
     (let hooked = (if roles u \<noteq> [] \<and> (case primaryRole u of None \<Rightarrow> True | Some r \<Rightarrow> r = [])
                    then u\<lparr>primaryRole := Some (hd (roles u))\<rparr> else u);
          written = hooked\<lparr>verificationLevels :=
                       (if verificationLevels loaded = None then verificationLevels hooked
                        else verificationLevels loaded)\<rparr>
      in st\<lparr>User := (User st)(uid \<mapsto> written)\<rparr>)"

section \<open>submitVerification (verificationController.ts, lines 16--123)\<close>

text \<open>
  The properties of a body, other than \<open>role\<close> and \<open>verificationLevel\<close>, that name a
  path of the schema outside the evidence.  They stay in \<open>verificationData\<close> and are
  spread into the document with it.  \<open>_id\<close>, \<open>userId\<close> and \<open>status\<close> are given as
  the value the schema type of the path reads, \<open>None\<close> for a body without the
  property.  The four optional paths of the review are given likewise, with
  \<open>Some None\<close> for a property that is \<open>null\<close>.  \<open>path_refused\<close> says that the body
  gives one of these paths a value that Mongoose refuses (one the schema type cannot
  cast, or \<open>null\<close> for the required \<open>userId\<close>).  A \<open>null\<close> as \<open>_id\<close> or \<open>status\<close>
  is not covered.  (A \<open>submittedAt\<close> of the body never reaches the document: both
  writes put \<open>new Date()\<close> after the spread.)
\<close>

record document_paths =
  path_id :: "nat option"
  path_userId :: "nat option"
  path_status :: "VerificationStatus option"
  path_reviewedBy :: "nat option option"
  path_reviewedAt :: "nat option option"
  path_rejectionReason :: "string option option"
  path_adminNotes :: "string option option"
  path_refused :: bool

text \<open>
  A request as the handler reads it: the result of \<open>validationResult(req)\<close>, the id of
  \<open>authReq.user\<close>, and the body split as the destructuring
  \<open>{ role, verificationLevel, ...verificationData }\<close> splits it, the rest in its
  evidence part and its other document paths.
\<close>

record submit_request =
  validationErrors :: "string list"
  authUser :: "nat option"
  body_role :: string
  body_verificationLevel :: "VerificationLevel option"
  body_rest :: "evidence_field \<Rightarrow> json"
  body_paths :: document_paths

text \<open>
  What a run of the handler draws from outside: the clock (\<open>new Date()\<close>), the
  \<open>_id\<close> Mongoose gives a created document, the crypto environment, the random iv
  and salt of the two possible \<open>encrypt\<close> calls, and Mongoose's handling of values.
\<close>

record run_env =
  now :: nat
  newId :: nat
  crypto :: node_crypto
  random_bank :: "Buffer \<times> Buffer"
  random_investment :: "Buffer \<times> Buffer"
  mongoose :: mongoose_layer

definition validRoles :: "VerificationRole list" where
  "validRoles = [''student'', ''mentor'', ''employer'', ''investor'', ''sponsor'', ''entrepreneur'']"

text \<open>
  \<open>encrypt(v)\<close> on a truthy value of the body: a string is encrypted, any other value
  makes \<open>cipher.update(v, 'utf8')\<close> throw once the key has been read.
\<close>

definition encrypt_value :: "node_crypto \<Rightarrow> Buffer \<times> Buffer \<Rightarrow> json \<Rightarrow> error + json" where
  "encrypt_value c rnd v =
     (case v of
        JStr s \<Rightarrow> (case encrypt c (fst rnd) (snd rnd) s of Inl e \<Rightarrow> Inl e | Inr b \<Rightarrow> Inr (JStr b))
      | _ \<Rightarrow> (case getEncryptionKey c of Inl e \<Rightarrow> Inl e | Inr key \<Rightarrow> Inl TypeError))"

text \<open>
  \<open>if (d.k?.accountNumber) d.k.accountNumber = encrypt(d.k.accountNumber)\<close>, for a
  section \<open>d.k\<close>.
\<close>

definition encryptAccountNumber :: "node_crypto \<Rightarrow> Buffer \<times> Buffer \<Rightarrow> json \<Rightarrow> error + json" where
  "encryptAccountNumber c rnd sec =
     (let accountNumber =
            (if sec = JUndefined \<or> sec = JNull then JUndefined else getProp sec ''accountNumber'')
      in if truthy accountNumber
         then (case encrypt_value c rnd accountNumber of
                 Inl e \<Rightarrow> Inl e
               | Inr b \<Rightarrow> Inr (setProp sec ''accountNumber'' b))
         else Inr sec)"

text \<open>
  What the handler has computed when \<open>Verification.findOne\<close> returns (lines 18--91):
  the user id, the final level, the data with its encrypted fields, and the existing
  record if there is one.
\<close>

record submission =
  sub_userId :: nat
  sub_role :: VerificationRole
  finalLevel :: VerificationLevel
  encryptedData :: "evidence_field \<Rightarrow> json"
  sub_paths :: document_paths
  existing :: "IVerification option"

definition submit_lookup :: "run_env \<Rightarrow> database \<Rightarrow> submit_request \<Rightarrow> error + submission" where
  "submit_lookup env st req =
     (if \<not> connected st then Inl (AppError ''Database connection is not available'' 503)
      else if validationErrors req \<noteq> [] then Inl (AppError (hd (validationErrors req)) 400)
      else case authUser req of
        None \<Rightarrow> Inl (AppError ''Authentication required'' 401)
      | Some uid \<Rightarrow>
          if body_role req \<notin> set validRoles then Inl (AppError ''Invalid role'' 400)
          else (case User st uid of
            None \<Rightarrow> Inl (AppError ''User not found'' 404)
          | Some u \<Rightarrow>
              (let determinedLevel = determineLevel u (body_role req) (body_rest req);
                   final = (case body_verificationLevel req of
                              Some l \<Rightarrow> l
                            | None \<Rightarrow> determinedLevel)
               in case encryptAccountNumber (crypto env) (random_bank env)
                         (body_rest req bankDetails) of
                    Inl e \<Rightarrow> Inl e
                  | Inr bank \<Rightarrow>
                      (case encryptAccountNumber (crypto env) (random_investment env)
                              (body_rest req investmentBankDetails) of
                         Inl e \<Rightarrow> Inl e
                       | Inr investment \<Rightarrow>
                           Inr \<lparr>sub_userId = uid, sub_role = body_role req, finalLevel = final,
                                encryptedData = (body_rest req)
                                  (bankDetails := bank, investmentBankDetails := investment),
                                sub_paths = body_paths req,
                                existing = findOne st uid (body_role req)\<rparr>))))"

text \<open>
  Lines 93--103.  \<open>Object.assign\<close> writes the properties the submission has, and
  after them \<open>role\<close>, \<open>verificationLevel\<close>, \<open>status\<close> and \<open>submittedAt\<close>; a
  property the submission does not have stays as the loaded document has it.
\<close>

definition assign_submission :: "run_env \<Rightarrow> submission \<Rightarrow> IVerification \<Rightarrow> IVerification" where
  "assign_submission env sub verification =
     verification
       \<lparr>vid := (case path_id (sub_paths sub) of Some i \<Rightarrow> i | None \<Rightarrow> vid verification),
        userId := (case path_userId (sub_paths sub) of
                     Some i \<Rightarrow> i
                   | None \<Rightarrow> userId verification),
        evidence := (\<lambda>k. if encryptedData sub k \<noteq> JUndefined
                          then encryptedData sub k else evidence verification k),
        reviewedBy := (case path_reviewedBy (sub_paths sub) of
                         Some x \<Rightarrow> x
                       | None \<Rightarrow> reviewedBy verification),
        reviewedAt := (case path_reviewedAt (sub_paths sub) of
                         Some x \<Rightarrow> x
                       | None \<Rightarrow> reviewedAt verification),
        rejectionReason := (case path_rejectionReason (sub_paths sub) of
                              Some x \<Rightarrow> x
                            | None \<Rightarrow> rejectionReason verification),
        adminNotes := (case path_adminNotes (sub_paths sub) of
                         Some x \<Rightarrow> x
                       | None \<Rightarrow> adminNotes verification),
        role := sub_role sub,
        verificationLevel := finalLevel sub,
        status := pending,
        submittedAt := now env\<rparr>"

text \<open>
  Lines 105--113: the document \<open>Verification.create\<close> is called with.  The spread
  comes after \<open>userId\<close>, \<open>role\<close>, \<open>verificationLevel\<close> and \<open>status\<close>, so that a
  \<open>userId\<close> or \<open>status\<close> of the body replaces the handler's.
\<close>

definition new_verification :: "run_env \<Rightarrow> submission \<Rightarrow> IVerification" where
  "new_verification env sub =
     \<lparr>vid = (case path_id (sub_paths sub) of Some i \<Rightarrow> i | None \<Rightarrow> newId env),
      userId = (case path_userId (sub_paths sub) of Some i \<Rightarrow> i | None \<Rightarrow> sub_userId sub),
      role = sub_role sub,
      verificationLevel = finalLevel sub,
      status = (case path_status (sub_paths sub) of Some s \<Rightarrow> s | None \<Rightarrow> pending),
      evidence = schema_defaults (encryptedData sub),
      reviewedBy = (case path_reviewedBy (sub_paths sub) of Some x \<Rightarrow> x | None \<Rightarrow> None),
      reviewedAt = (case path_reviewedAt (sub_paths sub) of Some x \<Rightarrow> x | None \<Rightarrow> None),
      rejectionReason =
        (case path_rejectionReason (sub_paths sub) of Some x \<Rightarrow> x | None \<Rightarrow> None),
      adminNotes = (case path_adminNotes (sub_paths sub) of Some x \<Rightarrow> x | None \<Rightarrow> None),
      submittedAt = now env\<rparr>"

text \<open>
  Lines 93--113: the write.  A value that Mongoose refused when the document was
  assigned or constructed makes the validation of either write fail.
\<close>

definition submit_store ::
  "run_env \<Rightarrow> database \<Rightarrow> submission \<Rightarrow> error + (IVerification \<times> database)" where
  "submit_store env st sub =
     (if path_refused (sub_paths sub) then Inl ValidationError
      else case existing sub of
        Some verification \<Rightarrow>
          save (mongoose env) st verification (assign_submission env sub verification)
      | None \<Rightarrow> create (mongoose env) st (new_verification env sub))"

definition submitVerification ::
  "run_env \<Rightarrow> database \<Rightarrow> submit_request \<Rightarrow> error + (IVerification \<times> database)" where
  "submitVerification env st req =
     (case submit_lookup env st req of
        Inl e \<Rightarrow> Inl e
      | Inr sub \<Rightarrow> submit_store env st sub)"

section \<open>approveVerification and rejectVerification (lines 243--342)\<close>

record review_request =
  admin :: "nat option"
  param_id :: nat
  body_rejectionReason :: "string option"
  body_adminNotes :: "string option"

definition truthy_string :: "string option \<Rightarrow> bool" where
  "truthy_string x \<longleftrightarrow> (case x of None \<Rightarrow> False | Some s \<Rightarrow> s \<noteq> [])"

text \<open>
  Lines 243--295.  The record is saved first; the user is then looked up, the level
  is put into the object of \<open>verificationLevels\<close> under the record's role, and the
  user is saved.
\<close>

definition approveVerification ::
  "run_env \<Rightarrow> database \<Rightarrow> review_request \<Rightarrow> error + (IVerification \<times> database)" where
  "approveVerification env st req =
     (if \<not> connected st then Inl (AppError ''Database connection is not available'' 503)
      else case admin req of
        None \<Rightarrow> Inl (AppError ''Authentication required'' 401)
      | Some reviewer \<Rightarrow>
          (case findById st (param_id req) of
             None \<Rightarrow> Inl (AppError ''Verification not found'' 404)
           | Some verification \<Rightarrow>
               (case save (mongoose env) st verification
                       (verification
                          \<lparr>status := approved, reviewedBy := Some reviewer,
                           reviewedAt := Some (now env),
                           adminNotes := (if truthy_string (body_adminNotes req)
                                          then body_adminNotes req
                                          else adminNotes verification)\<rparr>) of
                  Inl e \<Rightarrow> Inl e
                | Inr (verification', st') \<Rightarrow>
                    (case User st' (userId verification') of
                       Some u \<Rightarrow>
                         (let levels = (case verificationLevels u of
                                          None \<Rightarrow> Map.empty
                                        | Some m \<Rightarrow> m);
                              levels' = levels(role verification'
                                                 \<mapsto> verificationLevel verification');
                              u' = u\<lparr>verificationLevels := Some levels'\<rparr>
                          in Inr (verification',
                                  user_save st' (userId verification') u u'))
                     | None \<Rightarrow> Inr (verification', st')))))"

definition rejectVerification ::
  "run_env \<Rightarrow> database \<Rightarrow> review_request \<Rightarrow> error + (IVerification \<times> database)" where
  "rejectVerification env st req =
     (if \<not> connected st then Inl (AppError ''Database connection is not available'' 503)
      else case admin req of
        None \<Rightarrow> Inl (AppError ''Authentication required'' 401)
      | Some reviewer \<Rightarrow>
          if \<not> truthy_string (body_rejectionReason req)
          then Inl (AppError ''Rejection reason is required'' 400)
          else (case findById st (param_id req) of
            None \<Rightarrow> Inl (AppError ''Verification not found'' 404)
          | Some verification \<Rightarrow>
              save (mongoose env) st verification
                (verification
                   \<lparr>status := rejected, reviewedBy := Some reviewer,
                    reviewedAt := Some (now env),
                    rejectionReason := body_rejectionReason req,
                    adminNotes := (if truthy_string (body_adminNotes req)
                                   then body_adminNotes req else adminNotes verification)\<rparr>)))"

text \<open>The database a handler leaves behind: unchanged when it ends in an error.\<close>

definition db_after ::
  "database \<Rightarrow> error + (IVerification \<times> database) \<Rightarrow> database" where
  "db_after st res = (case res of Inl e \<Rightarrow> st | Inr (v, st') \<Rightarrow> st')"

section \<open>Access gate (middlewares/verificationAccess.ts)\<close>

definition levelNames :: "string list" where
  "levelNames = [''L0 (Basic)'', ''L1 (ID Verified)'', ''L2 (Role Verified)'',
                 ''L3 (Trusted/Premium)'']"

definition levelName :: "nat \<Rightarrow> string" where
  "levelName n = (if n < length levelNames then levelNames ! n else ''undefined'')"

text \<open>Lines 49--73 of \<open>requireVerificationLevel\<close>: the level the gate compares.\<close>

definition resolveUserLevel :: "database \<Rightarrow> nat \<Rightarrow> IUser \<Rightarrow> VerificationRole \<Rightarrow> VerificationLevel" where
  "resolveUserLevel st uid u checkRole =
     (let userLevel = 0;
          userLevel = (case verificationLevels u of
                         None \<Rightarrow> userLevel
                       | Some m \<Rightarrow> (case m checkRole of None \<Rightarrow> userLevel | Some l \<Rightarrow> l))
      in if userLevel = 0
         then (case findOneApproved st uid checkRole of
                 Some verification \<Rightarrow> verificationLevel verification
               | None \<Rightarrow> (if isEmailVerified u then 0 else userLevel))
         else userLevel)"

text \<open>
  The middleware: \<open>Inr\<close> with the attached \<open>requiredLevel\<close> and \<open>requiredRole\<close> when it
  calls \<open>next()\<close>, \<open>Inl\<close> with the error it passes to \<open>next\<close> otherwise.
\<close>

definition requireVerificationLevel ::
  "VerificationLevel \<Rightarrow> VerificationRole option \<Rightarrow> database \<Rightarrow> nat option
     \<Rightarrow> error + (VerificationLevel \<times> VerificationRole)" where
  "requireVerificationLevel requiredLevel r st auth =
     (case auth of
        None \<Rightarrow> Inl (AppError ''Authentication required'' 401)
      | Some uid \<Rightarrow>
          (case User st uid of
             None \<Rightarrow> Inl (AppError ''User not found'' 404)
           | Some u \<Rightarrow>
               (let checkRole = (if truthy_string r then r else primaryRole u)
                in if \<not> truthy_string checkRole
                   then Inl (AppError ''No role specified for verification check'' 400)
                   else
                     (let userLevel = resolveUserLevel st uid u (the checkRole)
                      in if userLevel < requiredLevel
                         then Inl (AppError
                                (''This action requires '' @ levelName requiredLevel @
                                 '' verification. Your current level is '' @
                                 levelName userLevel @ ''.'') 403)
                         else Inr (requiredLevel, the checkRole)))))"

text \<open>The helper \<open>getUserVerificationLevel\<close> (lines 100--129); \<open>userId\<close> is looked up first.\<close>

definition getUserVerificationLevel :: "database \<Rightarrow> nat \<Rightarrow> VerificationRole \<Rightarrow> VerificationLevel" where
  "getUserVerificationLevel st uid r =
     (case User st uid of
        None \<Rightarrow> 0
      | Some u \<Rightarrow>
          (case (case verificationLevels u of None \<Rightarrow> None | Some m \<Rightarrow> m r) of
             Some l \<Rightarrow> l
           | None \<Rightarrow>
               (case findOneApproved st uid r of
                  Some verification \<Rightarrow> verificationLevel verification
                | None \<Rightarrow> (if isEmailVerified u then 0 else 0))))"

section \<open>Two first submissions in a race\<close>


section \<open>Example data\<close>

text \<open>
  A stand-in for the crypto library, with the interface of AES-256-GCM, to run the
  model on concrete inputs: it shifts every byte by one and uses a checksum of key, iv
  and ciphertext as the 16-byte tag.
\<close>

definition toy_tag :: "Buffer \<Rightarrow> Buffer \<Rightarrow> Buffer \<Rightarrow> Buffer" where
  "toy_tag key iv ct = replicate 15 0 @ [sum_list (key @ iv @ ct)]"

definition toy_crypto :: node_crypto where
  "toy_crypto =
     \<lparr>ENCRYPTION_KEY = None,
      scryptSync = (\<lambda>s. map ucast (take 32 s)),
      gcm_cipher = (\<lambda>key iv pt. (map (\<lambda>b. b + 1) pt, toy_tag key iv (map (\<lambda>b. b + 1) pt))),
      gcm_decipher = (\<lambda>key iv tag ct.
         if iv \<noteq> [] \<and> tag = toy_tag key iv ct then Some (map (\<lambda>b. b - 1) ct) else None)\<rparr>"

text \<open>The key the stand-in derives from the default key material, and example inputs.\<close>

definition toy_key :: Buffer where
  "toy_key = map ucast (take 32 (js ''default-encryption-key-change-in-production-32-chars''))"

definition example_iv :: Buffer where "example_iv = replicate 16 1"
definition example_salt :: Buffer where "example_salt = replicate 64 2"
definition tampered_salt :: Buffer where "tampered_salt = 3 # replicate 63 2"

definition example_text :: jsstring where
  "example_text = js ''1234567890''"











text \<open>A stand-in for Mongoose's handling of values that takes every value as it is.\<close>

definition example_mongoose :: mongoose_layer where
  "example_mongoose =
     \<lparr>cast_evidence = Some, stored_evidence = (\<lambda>e. e),
      update_other_id = (\<lambda>st loaded v. Inl DocumentNotFoundError)\<rparr>"

definition example_env :: run_env where
  "example_env =
     \<lparr>now = 1000, newId = 7, crypto = toy_crypto,
      random_bank = (example_iv, example_salt),
      random_investment = (replicate 16 3, replicate 64 4),
      mongoose = example_mongoose\<rparr>"


definition example_user :: IUser where
  "example_user =
     \<lparr>isEmailVerified = False, roles = [''student''], primaryRole = Some ''student'',
      verificationLevels = None\<rparr>"

definition example_db :: database where
  "example_db =
     \<lparr>connected = True, uniqueIndex = True, User = [1 \<mapsto> example_user], Verification = []\<rparr>"

definition example_record :: "VerificationStatus \<Rightarrow> VerificationLevel \<Rightarrow> IVerification" where
  "example_record s l =
     \<lparr>vid = 5, userId = 1, role = ''student'', verificationLevel = l, status = s,
      evidence = (\<lambda>k. JUndefined), reviewedBy = None, reviewedAt = None,
      rejectionReason = None, adminNotes = None, submittedAt = 900\<rparr>"

definition cached_zero_db :: database where
  "cached_zero_db =
     \<lparr>connected = True, uniqueIndex = True,
      User = [1 \<mapsto> example_user\<lparr>verificationLevels := Some [''student'' \<mapsto> 0]\<rparr>],
      Verification = [example_record approved 2]\<rparr>"

definition empty_body :: "evidence_field \<Rightarrow> json" where
  "empty_body = (\<lambda>k. JUndefined)"

definition no_paths :: document_paths where
  "no_paths =
     \<lparr>path_id = None, path_userId = None, path_status = None, path_reviewedBy = None,
      path_reviewedAt = None, path_rejectionReason = None, path_adminNotes = None,
      path_refused = False\<rparr>"

definition example_request :: "VerificationLevel option \<Rightarrow> (evidence_field \<Rightarrow> json) \<Rightarrow> submit_request" where
  "example_request l d =
     \<lparr>validationErrors = [], authUser = Some 1, body_role = ''student'',
      body_verificationLevel = l, body_rest = d, body_paths = no_paths\<rparr>"

definition scenario_c :: "evidence_field \<Rightarrow> json" where
  "scenario_c = empty_body
     (addressProof := JObj [(''address'', JStr (js ''1 Main St''))],
      videoVerification := JObj [(''videoUrl'', JStr (js ''v.mp4''))])"




text \<open>
  A rejected student record of level 1 whose user has a stored cache, with a level
  for the role \<open>mentor\<close>; and a pending record of level 1 whose user has level 3
  cached for the record's role.
\<close>

definition rejected_db :: database where
  "rejected_db =
     \<lparr>connected = True, uniqueIndex = True,
      User = [1 \<mapsto> example_user\<lparr>verificationLevels := Some [''mentor'' \<mapsto> 2]\<rparr>],
      Verification = [example_record rejected 1]\<rparr>"

definition example_review :: "string option \<Rightarrow> review_request" where
  "example_review reason =
     \<lparr>admin = Some 9, param_id = 5, body_rejectionReason = reason, body_adminNotes = None\<rparr>"

definition demote_db :: database where
  "demote_db =
     \<lparr>connected = True, uniqueIndex = True,
      User = [1 \<mapsto> example_user\<lparr>verificationLevels := Some [''student'' \<mapsto> 3]\<rparr>],
      Verification = [example_record pending 1]\<rparr>"

section \<open>Facts about the store\<close>

lemma find_Some_mem: "find P xs = Some x \<Longrightarrow> x \<in> set xs \<and> P x"
  by (induction xs) (auto split: if_splits)


lemma find_append_new: "find P xs = None \<Longrightarrow> P v \<Longrightarrow> find P (xs @ [v]) = Some v"
  by (induction xs) (auto split: if_splits)


lemma find_replace_first:
  "find P xs = Some old \<Longrightarrow> P v \<Longrightarrow> Q old \<Longrightarrow> find P (replace_first Q v xs) = Some v"
  by (induction xs) (auto split: if_splits)

lemma replace_first_mem: "\<exists>w \<in> set xs. Q w \<Longrightarrow> v \<in> set (replace_first Q v xs)"
  by (induction xs) auto


lemma validate_Inr:
  "validate m v = Inr v' \<longleftrightarrow>
     role v \<in> set schemaRoles \<and> verificationLevel v \<le> 3 \<and>
     (\<exists>e. cast_evidence m (evidence v) = Some e \<and> v' = v\<lparr>evidence := e\<rparr>)"
  by (auto simp: validate_def split: option.splits)

lemma save_same_id:
  assumes "vid v = vid loaded"
  shows "save m st loaded v = Inr (r, st') \<longleftrightarrow>
     validate m v = Inr r \<and> (\<exists>w \<in> set (Verification st). vid w = vid loaded) \<and>
     \<not> (uniqueIndex st \<and> (userId v \<noteq> userId loaded \<or> role v \<noteq> role loaded) \<and>
          (\<exists>w \<in> set (Verification st). vid w \<noteq> vid loaded \<and> userId w = userId v \<and> role w = role v)) \<and>
     st' = st\<lparr>Verification := replace_first (\<lambda>w. vid w = vid loaded) (stored m r) (Verification st)\<rparr>"
proof (cases "validate m v")
  case (Inl e)
  then show ?thesis by (simp add: save_def)
next
  case (Inr v')
  then have "vid v' = vid v" "userId v' = userId v" "role v' = role v"
    by (auto simp: validate_Inr)
  then show ?thesis using Inr assms by (auto simp: save_def)
qed

lemma create_Inr:
  "create m st v = Inr (r, st') \<longleftrightarrow>
     validate m v = Inr r \<and> \<not> (\<exists>w \<in> set (Verification st). vid w = vid v) \<and>
     \<not> (uniqueIndex st \<and> (\<exists>w \<in> set (Verification st). userId w = userId v \<and> role w = role v)) \<and>
     st' = st\<lparr>Verification := Verification st @ [stored m r]\<rparr>"
proof (cases "validate m v")
  case (Inl e)
  then show ?thesis by (simp add: create_def)
next
  case (Inr v')
  then have "vid v' = vid v" "userId v' = userId v" "role v' = role v"
    by (auto simp: validate_Inr)
  then show ?thesis using Inr by (auto simp: create_def)
qed


lemma submit_lookup_Inr:
  assumes "submit_lookup env st req = Inr sub"
  shows "connected st \<and> validationErrors req = [] \<and> authUser req = Some (sub_userId sub)
     \<and> body_role req \<in> set validRoles \<and> sub_role sub = body_role req
     \<and> sub_paths sub = body_paths req
     \<and> (\<exists>u. User st (sub_userId sub) = Some u \<and>
           finalLevel sub = (case body_verificationLevel req of Some l \<Rightarrow> l
                 | None \<Rightarrow> determineLevel u (body_role req) (body_rest req)))
     \<and> existing sub = findOne st (sub_userId sub) (body_role req)
     \<and> (\<forall>k. k \<noteq> bankDetails \<longrightarrow> k \<noteq> investmentBankDetails \<longrightarrow> encryptedData sub k = body_rest req k)"
  using assms unfolding submit_lookup_def
  by (auto simp: Let_def split: if_splits option.splits sum.splits)


lemma validRoles_schemaRoles: "r \<in> set validRoles \<Longrightarrow> r \<in> set schemaRoles"
  by (auto simp: validRoles_def schemaRoles_def)

lemma user_save_User:
  "\<exists>u'. User (user_save st uid loaded u) = (User st)(uid \<mapsto> u') \<and>
        verificationLevels u' =
          (if verificationLevels loaded = None then verificationLevels u
           else verificationLevels loaded)"
  unfolding user_save_def Let_def by (intro exI conjI) (simp, simp)

text \<open>The outcome of \<open>approveVerification\<close> on a record that passes validation.\<close>

lemma approve_found:
  assumes "connected st" and "admin req = Some reviewer"
    and "findById st (param_id req) = Some old"
    and "role old \<in> set schemaRoles" and "verificationLevel old \<le> 3"
    and "cast_evidence (mongoose env) (evidence old) = Some e"
  shows "\<exists>v st'. approveVerification env st req = Inr (v, st') \<and>
           v = old\<lparr>status := approved, reviewedBy := Some reviewer,
                   reviewedAt := Some (now env),
                   adminNotes := (if truthy_string (body_adminNotes req)
                                  then body_adminNotes req else adminNotes old),
                   evidence := e\<rparr> \<and>
           Verification st' =
             replace_first (\<lambda>w. vid w = vid old) (stored (mongoose env) v) (Verification st) \<and>
           (case User st (userId old) of
              None \<Rightarrow> User st' = User st
            | Some u \<Rightarrow>
                (\<exists>u'. User st' = (User st)(userId old \<mapsto> u') \<and>
                   verificationLevels u' =
                     (case verificationLevels u of
                        None \<Rightarrow> Some [role old \<mapsto> verificationLevel old]
                      | Some m \<Rightarrow> Some m)))"
proof -
  let ?a = "old\<lparr>status := approved, reviewedBy := Some reviewer,
                   reviewedAt := Some (now env),
                   adminNotes := (if truthy_string (body_adminNotes req)
                                  then body_adminNotes req else adminNotes old)\<rparr>"
  let ?v = "?a\<lparr>evidence := e\<rparr>"
  let ?st1 = "st\<lparr>Verification :=
                  replace_first (\<lambda>w. vid w = vid old) (stored (mongoose env) ?v) (Verification st)\<rparr>"
  have m: "old \<in> set (Verification st)"
    using find_Some_mem[of "\<lambda>w. vid w = param_id req" "Verification st" old] assms(3)
    by (simp add: findById_def)
  have val: "validate (mongoose env) ?a = Inr ?v"
    using assms(4-6) by (simp add: validate_Inr)
  have s: "save (mongoose env) st old ?a = Inr (?v, ?st1)"
    using save_same_id[of ?a old "mongoose env" st ?v ?st1] val m by auto
  show ?thesis
  proof (cases "User st (userId old)")
    case None
    then have "approveVerification env st req = Inr (?v, ?st1)"
      using assms(1-3) s by (simp add: approveVerification_def)
    then show ?thesis using None by simp
  next
    case (Some u)
    let ?u = "u\<lparr>verificationLevels :=
                 Some ((case verificationLevels u of None \<Rightarrow> Map.empty | Some m \<Rightarrow> m)
                         (role old \<mapsto> verificationLevel old))\<rparr>"
    have "approveVerification env st req = Inr (?v, user_save ?st1 (userId old) u ?u)"
      using assms(1-3) s Some by (simp add: approveVerification_def Let_def)
    moreover have "\<exists>u'. User (user_save ?st1 (userId old) u ?u) = (User st)(userId old \<mapsto> u') \<and>
                   verificationLevels u' =
                     (case verificationLevels u of
                        None \<Rightarrow> Some [role old \<mapsto> verificationLevel old]
                      | Some m \<Rightarrow> Some m)"
      using user_save_User[of ?st1 "userId old" u ?u] by (cases "verificationLevels u") auto
    moreover have "Verification (user_save ?st1 (userId old) u ?u) = Verification ?st1"
      by (simp add: user_save_def Let_def)
    ultimately show ?thesis using Some by auto
  qed
qed

text \<open>What a successful \<open>approveVerification\<close> has read.\<close>

lemma approve_Inr:
  assumes "approveVerification env st req = Inr (v, st')"
  shows "\<exists>reviewer old e. connected st \<and> admin req = Some reviewer \<and>
           findById st (param_id req) = Some old \<and>
           role old \<in> set schemaRoles \<and> verificationLevel old \<le> 3 \<and>
           cast_evidence (mongoose env) (evidence old) = Some e"
proof -
  from assms have c: "connected st" by (auto simp: approveVerification_def split: if_splits)
  from assms c obtain reviewer where ad: "admin req = Some reviewer"
    by (auto simp: approveVerification_def split: option.splits)
  from assms c ad obtain old where f: "findById st (param_id req) = Some old"
    by (auto simp: approveVerification_def split: option.splits)
  let ?a = "old\<lparr>status := approved, reviewedBy := Some reviewer,
                   reviewedAt := Some (now env),
                   adminNotes := (if truthy_string (body_adminNotes req)
                                  then body_adminNotes req else adminNotes old)\<rparr>"
  from assms c ad f obtain r where "validate (mongoose env) ?a = Inr r"
    by (auto simp: approveVerification_def save_def split: sum.splits)
  then show ?thesis using c ad f by (auto simp: validate_Inr)
qed

lemma reject_keeps_users:
  "User (db_after st (rejectVerification env st req)) = User st"
proof (cases "rejectVerification env st req")
  case (Inl e)
  then show ?thesis by (simp add: db_after_def)
next
  case (Inr p)
  obtain v st' where p: "p = (v, st')" by (cases p)
  from Inr p obtain old a where "save (mongoose env) st old a = Inr (v, st')" and "vid a = vid old"
    by (auto simp: rejectVerification_def split: if_splits option.splits)
  then have "User st' = User st" by (auto simp: save_same_id)
  then show ?thesis using Inr p by (simp add: db_after_def)
qed

section \<open>Facts about the encodings\<close>

text \<open>The 6-bit groups of a byte sequence, as base64 reads them.\<close>

fun sextets :: "nat list \<Rightarrow> nat list" where
  "sextets (a # b # c # bs) =
     [a div 4, (a mod 4) * 16 + b div 16, (b mod 16) * 4 + c div 64, c mod 64] @ sextets bs"
| "sextets [a, b] = [a div 4, (a mod 4) * 16 + b div 16, (b mod 16) * 4]"
| "sextets [a] = [a div 4, (a mod 4) * 16]"
| "sextets [] = []"

lemma unbase64_base64_char: "i < 64 \<Longrightarrow> unbase64 (base64_char i) = Some i"
  by (auto simp: unbase64_def base64_char_def)

lemma base64_char_not_pad: "i < 64 \<Longrightarrow> base64_char i \<noteq> 61"
  by (auto simp: base64_char_def)

lemma base64_char_less: "i < 64 \<Longrightarrow> base64_char i < 128"
  by (auto simp: base64_char_def)

lemma read_base64_groups:
  "\<forall>b \<in> set bs. b < 256 \<Longrightarrow>
   List.map_filter unbase64 (takeWhile (\<lambda>c. c \<noteq> 61) (base64_groups bs)) = sextets bs"
proof (induction bs rule: base64_groups.induct)
  case (1 a b c bs)
  then have a: "a < 256" and b: "b < 256" and c: "c < 256" by simp_all
  have i: "a div 4 < 64" "(a mod 4) * 16 + b div 16 < 64" "(b mod 16) * 4 + c div 64 < 64" "c mod 64 < 64"
    using a b c by simp_all
  show ?case using 1 i
    by (simp add: List.map_filter_simps unbase64_base64_char base64_char_not_pad)
next
  case (2 a b)
  then have a: "a < 256" and b: "b < 256" by simp_all
  have i: "a div 4 < 64" "(a mod 4) * 16 + b div 16 < 64" "(b mod 16) * 4 < 64"
    using a b by simp_all
  show ?case using i
    by (simp add: List.map_filter_simps unbase64_base64_char base64_char_not_pad)
next
  case (3 a)
  then have a: "a < 256" by simp
  have i: "a div 4 < 64" "(a mod 4) * 16 < 64"
    using a by simp_all
  show ?case using i
    by (simp add: List.map_filter_simps unbase64_base64_char base64_char_not_pad)
next
  case 4
  show ?case by (simp add: List.map_filter_simps)
qed

lemma sextet_join: "x < n \<Longrightarrow> (q * n + x) div n = (q::nat)" "x < n \<Longrightarrow> (q * n + x) mod n = (x::nat)"
  by simp_all

lemma unbase64_group3:
  assumes a: "(a::nat) < 256" and b: "(b::nat) < 256" and c: "(c::nat) < 256"
  shows "a div 4 * 4 + ((a mod 4) * 16 + b div 16) div 16 = a"
    and "(((a mod 4) * 16 + b div 16) mod 16) * 16 + ((b mod 16) * 4 + c div 64) div 4 = b"
    and "(((b mod 16) * 4 + c div 64) mod 4) * 64 + c mod 64 = c"
proof -
  have bd: "b div 16 < 16" and cd: "c div 64 < 4" using b c by simp_all
  show "a div 4 * 4 + ((a mod 4) * 16 + b div 16) div 16 = a"
    using bd by (simp add: sextet_join)
  show "(((a mod 4) * 16 + b div 16) mod 16) * 16 + ((b mod 16) * 4 + c div 64) div 4 = b"
    using bd cd by (simp add: sextet_join)
  show "(((b mod 16) * 4 + c div 64) mod 4) * 64 + c mod 64 = c"
    using cd by (simp add: sextet_join)
qed

lemma unbase64_groups_sextets:
  "\<forall>b \<in> set bs. b < 256 \<Longrightarrow> unbase64_groups (sextets bs) = bs"
proof (induction bs rule: sextets.induct)
  case (1 a b c bs)
  then have a: "a < 256" and b: "b < 256" and c: "c < 256" by simp_all
  show ?case using 1 unbase64_group3[OF a b c] by simp
next
  case (2 a b)
  then have a: "a < 256" and b: "b < 256" by simp_all
  show ?case using unbase64_group3(1,2)[OF a b, of 0] by simp
next
  case (3 a)
  then have a: "a < 256" by simp
  show ?case using unbase64_group3(1)[OF a, of 0 0] by simp
qed simp

lemma base64_groups_less: "\<forall>b \<in> set bs. b < 256 \<Longrightarrow> \<forall>c \<in> set (base64_groups bs). c < 128"
  by (induction bs rule: base64_groups.induct) (auto intro!: base64_char_less)

lemma unat_byte_less: "unat (b :: byte) < 256"
  using unsigned_less[of b] by simp

lemma map_of_nat_unat: "map of_nat (map unat (ws :: 'a::len word list)) = ws"
  by (induction ws) (simp_all)

lemma map_low_byte_of_nat:
  "\<forall>c \<in> set cs. c < 256 \<Longrightarrow> map (\<lambda>u. unat u mod 256) (map of_nat cs :: code_unit list) = cs"
  by (induction cs) (auto simp: unat_of_nat)

lemma base64_roundtrip: "base64_decode (base64_encode buf) = buf"
proof -
  let ?bs = "map unat buf"
  have b: "\<forall>b \<in> set ?bs. b < 256" using unat_byte_less by auto
  have "\<forall>c \<in> set (base64_groups ?bs). c < 256"
    using base64_groups_less[OF b] by fastforce
  then have "map (\<lambda>u. unat u mod 256) (base64_encode buf) = base64_groups ?bs"
    unfolding base64_encode_def by (rule map_low_byte_of_nat)
  then show ?thesis
    unfolding base64_decode_def
    by (simp add: read_base64_groups[OF b] unbase64_groups_sextets[OF b] map_of_nat_unat del: map_map)
qed

lemma base64_encode_empty_iff: "base64_encode buf = [] \<longleftrightarrow> buf = []"
  unfolding base64_encode_def by (cases "map unat buf" rule: base64_groups.cases) auto

text \<open>Unicode scalar values: the code points UTF-8 encodes.\<close>

definition scalar_value :: "nat \<Rightarrow> bool" where
  "scalar_value cp \<longleftrightarrow> cp < 0x110000 \<and> \<not> (0xD800 \<le> cp \<and> cp \<le> 0xDFFF)"

lemma digit_join:
  fixes x n q :: nat
  assumes "x < n"
  shows "(q * n + x) div n = q" and "(q * n + x) mod n = x"
  using assms by simp_all

lemma utf8_run_start:
  "utf8_run utf8_initial (b # bs) = fst (utf8_lead b) @ utf8_run (snd (utf8_lead b)) bs"
  by (simp add: utf8_initial_def)

lemma utf8_run_more:
  "lo \<le> b \<Longrightarrow> b \<le> hi \<Longrightarrow>
   utf8_run (c, Suc (Suc n), lo, hi) (b # bs) = utf8_run (c * 64 + b mod 64, Suc n, 0x80, 0xBF) bs"
  by simp

lemma utf8_run_last:
  "lo \<le> b \<Longrightarrow> b \<le> hi \<Longrightarrow>
   utf8_run (c, Suc 0, lo, hi) (b # bs) = (c * 64 + b mod 64) # utf8_run utf8_initial bs"
  by simp

lemma trail_byte:
  fixes r :: nat
  assumes "r < 64"
  shows "0x80 \<le> 0x80 + r" and "0x80 + r \<le> 0xBF" and "(0x80 + r) mod 64 = r"
proof -
  show "0x80 \<le> 0x80 + r" by simp
  show "0x80 + r \<le> 0xBF" using assms by simp
  show "(0x80 + r) mod 64 = r" using digit_join(2)[OF assms, of 2] by simp
qed

lemma utf8_run_1:
  assumes "cp < 0x80"
  shows "utf8_run utf8_initial (utf8_bytes cp @ bs) = cp # utf8_run utf8_initial bs"
  using assms by (simp add: utf8_bytes_def utf8_run_start utf8_lead_def del: utf8_run.simps)

lemma utf8_run_2:
  assumes "0x80 \<le> cp" and "cp < 0x800"
  shows "utf8_run utf8_initial (utf8_bytes cp @ bs) = cp # utf8_run utf8_initial bs"
proof -
  define q r where "q = cp div 64" and "r = cp mod 64"
  have q: "2 \<le> q" "q < 32" and r: "r < 64" and cp: "q * 64 + r = cp"
    using assms by (simp_all add: q_def r_def)
  have bytes: "utf8_bytes cp = [0xC0 + q, 0x80 + r]"
    using assms by (simp add: utf8_bytes_def q_def r_def)
  have "(0xC0 + q) mod 32 = q" using digit_join(2)[OF q(2), of 6] by simp
  then have lead: "utf8_lead (0xC0 + q) = ([], (q, Suc 0, 0x80, 0xBF))"
    using q by (simp add: utf8_lead_def)
  show ?thesis
    by (simp add: bytes utf8_run_start lead utf8_run_last trail_byte[OF r] cp del: utf8_run.simps)
qed

lemma utf8_run_3:
  assumes "0x800 \<le> cp" and "cp < 0x10000" and "\<not> (0xD800 \<le> cp \<and> cp \<le> 0xDFFF)"
  shows "utf8_run utf8_initial (utf8_bytes cp @ bs) = cp # utf8_run utf8_initial bs"
proof -
  define d where "d = cp div 64"
  define p q r where "p = d div 64" and "q = d mod 64" and "r = cp mod 64"
  have d: "32 \<le> d" "d < 1024"
    using assms unfolding d_def by simp_all
  have "864 \<le> d \<longleftrightarrow> 864 * 64 \<le> cp" "d < 896 \<longleftrightarrow> cp < 896 * 64"
    unfolding d_def by (simp_all add: less_eq_div_iff_mult_less_eq div_less_iff_less_mult)
  then have d3: "\<not> (864 \<le> d \<and> d < 896)" using assms(3) by linarith
  have p: "p < 16" and q: "q < 64" and r: "r < 64"
    using d by (simp_all add: p_def q_def r_def)
  have dq: "p * 64 + q = d" by (simp add: p_def q_def)
  have cp: "(p * 64 + q) * 64 + r = cp" unfolding dq by (simp add: d_def r_def)
  have p4096: "cp div 4096 = p"
    unfolding p_def d_def by (simp add: div_mult2_eq[symmetric])
  have bytes: "utf8_bytes cp = [0xE0 + p, 0x80 + q, 0x80 + r]"
    using assms by (simp add: utf8_bytes_def p4096 q_def d_def r_def)
  have "(0xE0 + p) mod 16 = p" using digit_join(2)[OF p, of 14] by simp
  then have lead: "utf8_lead (0xE0 + p) =
      ([], (p, Suc (Suc 0), if p = 0 then 0xA0 else 0x80, if p = 13 then 0x9F else 0xBF))"
    using p by (simp add: utf8_lead_def)
  have lo: "(if p = 0 then 0xA0 else 0x80) \<le> 0x80 + q"
  proof (cases "p = 0")
    case True
    then have "q = d" using dq by simp
    then show ?thesis using True d by simp
  qed simp
  have hi: "0x80 + q \<le> (if p = 13 then 0x9F else 0xBF)"
  proof (cases "p = 13")
    case True
    then have "d = 832 + q" using dq by simp
    then have "q < 32" using d d3 q by simp
    then show ?thesis using True by simp
  next
    case False
    then show ?thesis using q by simp
  qed
  have cp': "4096 * p + q * 64 + r = cp" using cp by simp
  show ?thesis
    by (simp add: bytes utf8_run_start lead utf8_run_more[OF lo hi] utf8_run_last
        trail_byte[OF r] trail_byte[OF q] cp' del: utf8_run.simps)
qed

lemma utf8_run_4:
  assumes "0x10000 \<le> cp" and "cp < 0x110000"
  shows "utf8_run utf8_initial (utf8_bytes cp @ bs) = cp # utf8_run utf8_initial bs"
proof -
  define d where "d = cp div 64"
  define e where "e = d div 64"
  define o' p q r where "o' = e div 64" and "p = e mod 64" and "q = d mod 64" and "r = cp mod 64"
  have e4096: "cp div 4096 = e"
    unfolding e_def d_def by (simp add: div_mult2_eq[symmetric])
  have o262144: "cp div 262144 = o'"
    unfolding o'_def e4096[symmetric] by (simp add: div_mult2_eq[symmetric])
  have e: "16 \<le> e" "e < 272"
    using assms unfolding e4096[symmetric] by simp_all
  have o: "o' < 5" and p: "p < 64" and q: "q < 64" and r: "r < 64"
    using e by (simp_all add: o'_def p_def q_def r_def)
  have eo: "o' * 64 + p = e" by (simp add: o'_def p_def)
  have de: "e * 64 + q = d" by (simp add: e_def q_def)
  have cd: "d * 64 + r = cp" by (simp add: d_def r_def)
  have cp': "262144 * o' + 4096 * p + q * 64 + r = cp"
    using eo de cd by simp
  have bytes: "utf8_bytes cp = [0xF0 + o', 0x80 + p, 0x80 + q, 0x80 + r]"
    using assms by (simp add: utf8_bytes_def o262144 e4096 p_def q_def d_def r_def)
  have o8: "o' < 8" using o by simp
  have "(0xF0 + o') mod 8 = o'" using digit_join(2)[OF o8, of 30] by simp
  then have lead: "utf8_lead (0xF0 + o') =
      ([], (o', Suc (Suc (Suc 0)), if o' = 0 then 0x90 else 0x80, if o' = 4 then 0x8F else 0xBF))"
    using o by (simp add: utf8_lead_def)
  have lo: "(if o' = 0 then 0x90 else 0x80) \<le> 0x80 + p"
  proof (cases "o' = 0")
    case True
    then have "p = e" using eo by simp
    then show ?thesis using True e by simp
  qed simp
  have hi: "0x80 + p \<le> (if o' = 4 then 0x8F else 0xBF)"
  proof (cases "o' = 4")
    case True
    then have "e = 256 + p" using eo by simp
    then have "p < 16" using e by simp
    then show ?thesis using True by simp
  next
    case False
    then show ?thesis using p by simp
  qed
  show ?thesis
    by (simp add: bytes utf8_run_start lead utf8_run_more[OF lo hi] utf8_run_more utf8_run_last
        trail_byte[OF r] trail_byte[OF q] trail_byte[OF p] cp' del: utf8_run.simps)
qed

lemma utf8_run_scalar:
  assumes "scalar_value cp"
  shows "utf8_run utf8_initial (utf8_bytes cp @ bs) = cp # utf8_run utf8_initial bs"
proof -
  consider "cp < 0x80" | "0x80 \<le> cp" "cp < 0x800" | "0x800 \<le> cp" "cp < 0x10000"
    | "0x10000 \<le> cp" "cp < 0x110000"
    using assms unfolding scalar_value_def by linarith
  then show ?thesis
  proof cases
    case 1 then show ?thesis by (rule utf8_run_1)
  next
    case 2 then show ?thesis by (rule utf8_run_2)
  next
    case 3 then show ?thesis using assms by (intro utf8_run_3) (simp_all add: scalar_value_def)
  next
    case 4 then show ?thesis by (rule utf8_run_4)
  qed
qed

lemma utf8_run_concat:
  "\<forall>cp \<in> set cps. scalar_value cp \<Longrightarrow>
   utf8_run utf8_initial (concat (map utf8_bytes cps)) = cps"
proof (induction cps)
  case Nil
  show ?case by (simp add: utf8_initial_def)
next
  case (Cons cp cps)
  then show ?case by (simp add: utf8_run_scalar del: utf8_run.simps)
qed

lemma utf8_bytes_less: "scalar_value cp \<Longrightarrow> \<forall>b \<in> set (utf8_bytes cp). b < 256"
  unfolding scalar_value_def utf8_bytes_def by (auto simp: div_less_iff_less_mult)

lemma lone_unit_scalar: "u < 65536 \<Longrightarrow> scalar_value (lone_unit u)"
  by (auto simp: lone_unit_def scalar_value_def is_high_surrogate_def is_low_surrogate_def)

lemma pair_scalar:
  assumes "is_high_surrogate u" and "is_low_surrogate v"
  shows "scalar_value (0x10000 + (u - 0xD800) * 0x400 + (v - 0xDC00))"
proof -
  have "u - 0xD800 \<le> 0x3FF" and "v - 0xDC00 \<le> 0x3FF"
    using assms unfolding is_high_surrogate_def is_low_surrogate_def by linarith+
  then have "(u - 0xD800) * 0x400 + (v - 0xDC00) \<le> 0x3FF * 0x400 + 0x3FF"
    by (intro add_mono mult_right_mono) simp_all
  then show ?thesis by (simp add: scalar_value_def)
qed

lemma utf16_code_points_scalar:
  "\<forall>u \<in> set us. u < 65536 \<Longrightarrow> \<forall>cp \<in> set (utf16_code_points us). scalar_value cp"
  by (induction us rule: utf16_code_points.induct) (auto simp: lone_unit_scalar pair_scalar)

lemma pair_units:
  assumes "is_high_surrogate u" and "is_low_surrogate v"
  shows "utf16_units (0x10000 + (u - 0xD800) * 0x400 + (v - 0xDC00)) = [u, v]"
proof -
  define h l where "h = u - 0xD800" and "l = v - 0xDC00"
  have l: "l < 0x400" and u: "0xD800 + h = u" and v: "0xDC00 + l = v"
    using assms unfolding h_def l_def is_high_surrogate_def is_low_surrogate_def by linarith+
  have "(h * 0x400 + l) div 0x400 = h" "(h * 0x400 + l) mod 0x400 = l"
    using digit_join[OF l, of h] by simp_all
  then show ?thesis
    using u v by (simp add: utf16_units_def h_def[symmetric] l_def[symmetric])
qed

lemma utf16_roundtrip:
  "well_formed_utf16 us \<Longrightarrow> \<forall>u \<in> set us. u < 65536 \<Longrightarrow>
   concat (map utf16_units (utf16_code_points us)) = us"
proof (induction us rule: utf16_code_points.induct)
  case 1
  show ?case by simp
next
  case (2 u)
  then show ?case by (simp add: lone_unit_def utf16_units_def)
next
  case (3 u v us)
  show ?case
  proof (cases "is_high_surrogate u \<and> is_low_surrogate v")
    case True
    then show ?thesis using 3 by (simp add: pair_units)
  next
    case False
    then have n: "\<not> is_high_surrogate u" "\<not> is_low_surrogate u"
      and w: "well_formed_utf16 (v # us)"
      using "3.prems"(1) False by (auto split: if_splits)
    have l: "lone_unit u = u" using n by (simp add: lone_unit_def)
    have "utf16_units u = [u]" using "3.prems"(2) by (simp add: utf16_units_def)
    moreover have "concat (map utf16_units (utf16_code_points (v # us))) = v # us"
      using "3.IH"(2)[OF False w] "3.prems"(2) by simp
    ultimately show ?thesis using n l by simp
  qed
qed

lemma unat_unit_less: "unat (u :: code_unit) < 65536"
  using unsigned_less[of u] by simp

lemma map_unat_of_nat_8:
  "\<forall>b \<in> set bs. b < 256 \<Longrightarrow> map unat (map of_nat bs :: Buffer) = bs"
  by (induction bs) (auto simp: unat_of_nat)

lemma map_of_nat_unat_units: "map of_nat (map unat (s :: jsstring)) = s"
  by (induction s) simp_all

lemma utf8_decode_encode:
  "utf8_decode (utf8_encode s) =
     map of_nat (concat (map utf16_units (utf16_code_points (map unat s))))"
proof -
  let ?cps = "utf16_code_points (map unat s)"
  have u: "\<forall>u \<in> set (map unat s). u < 65536" using unat_unit_less by auto
  have sc: "\<forall>cp \<in> set ?cps. scalar_value cp" by (rule utf16_code_points_scalar[OF u])
  then have "\<forall>b \<in> set (concat (map utf8_bytes ?cps)). b < 256"
    using utf8_bytes_less by auto
  then have "map unat (utf8_encode s) = concat (map utf8_bytes ?cps)"
    unfolding utf8_encode_def by (rule map_unat_of_nat_8)
  then show ?thesis
    unfolding utf8_decode_def by (simp add: utf8_run_concat[OF sc])
qed

lemma utf8_roundtrip: "well_formed s \<Longrightarrow> utf8_decode (utf8_encode s) = s"
proof -
  assume "well_formed s"
  then have w: "well_formed_utf16 (map unat s)" by (simp add: well_formed_def)
  have u: "\<forall>u \<in> set (map unat s). u < 65536" using unat_unit_less by auto
  show ?thesis
    unfolding utf8_decode_encode utf16_roundtrip[OF w u] by (rule map_of_nat_unat_units)
qed

section \<open>Facts about the encryption utilities\<close>

lemma blob_slices:
  assumes "length salt = SALT_LENGTH" and "length iv = IV_LENGTH" and "length tag = TAG_LENGTH"
  shows "subarray (salt @ iv @ tag @ encrypted) 0 SALT_LENGTH = salt"
    and "subarray (salt @ iv @ tag @ encrypted) SALT_LENGTH TAG_POSITION = iv"
    and "subarray (salt @ iv @ tag @ encrypted) TAG_POSITION ENCRYPTED_POSITION = tag"
    and "subarray_from (salt @ iv @ tag @ encrypted) ENCRYPTED_POSITION = encrypted"
  using assms
  by (simp_all add: subarray_def subarray_from_def TAG_POSITION_def ENCRYPTED_POSITION_def)

lemma decrypt_blob:
  assumes "getEncryptionKey c = Inr key" and "buf \<noteq> []"
  shows "decrypt c (base64_encode buf) =
     (case gcm_decipher c key (subarray buf SALT_LENGTH TAG_POSITION)
             (subarray buf TAG_POSITION ENCRYPTED_POSITION)
             (subarray_from buf ENCRYPTED_POSITION) of
        None \<Rightarrow> Inl (Error ''Failed to decrypt data. Invalid encrypted text or key.'')
      | Some decrypted \<Rightarrow> Inr (utf8_decode decrypted))"
  using assms by (simp add: decrypt_def base64_roundtrip base64_encode_empty_iff Let_def)

lemma decrypt_encrypt_general:
  assumes "getEncryptionKey c = Inr key"
    and "length iv = IV_LENGTH" and "length salt = SALT_LENGTH"
    and "gcm_cipher c key iv (utf8_encode s) = (encrypted, tag)" and "length tag = TAG_LENGTH"
    and "gcm_decipher c key iv tag encrypted = Some (utf8_encode s)"
    and "s \<noteq> []"
  shows "encrypt c iv salt s = Inr (base64_encode (salt @ iv @ tag @ encrypted))"
    and "decrypt c (base64_encode (salt @ iv @ tag @ encrypted)) = Inr (utf8_decode (utf8_encode s))"
proof -
  show "encrypt c iv salt s = Inr (base64_encode (salt @ iv @ tag @ encrypted))"
    using assms(1,4,7) by (simp add: encrypt_def)
  have "salt @ iv @ tag @ encrypted \<noteq> []" using assms(3) by (auto simp: SALT_LENGTH_def)
  from decrypt_blob[OF assms(1) this]
  show "decrypt c (base64_encode (salt @ iv @ tag @ encrypted)) = Inr (utf8_decode (utf8_encode s))"
    by (simp add: blob_slices[OF assms(3,2,5)] assms(6))
qed


lemma decrypt_nonempty:
  assumes "blob \<noteq> []"
  shows "decrypt c blob =
     (case getEncryptionKey c of
        Inl e \<Rightarrow> Inl (Error ''Failed to decrypt data. Invalid encrypted text or key.'')
      | Inr key \<Rightarrow>
         (case gcm_decipher c key
                 (subarray (base64_decode blob) SALT_LENGTH TAG_POSITION)
                 (subarray (base64_decode blob) TAG_POSITION ENCRYPTED_POSITION)
                 (subarray_from (base64_decode blob) ENCRYPTED_POSITION) of
            None \<Rightarrow> Inl (Error ''Failed to decrypt data. Invalid encrypted text or key.'')
          | Some decrypted \<Rightarrow> Inr (utf8_decode decrypted)))"
  using assms by (simp add: decrypt_def Let_def split: sum.splits)

lemma slices_after_salt:
  assumes "length salt = SALT_LENGTH"
  shows "subarray (salt @ rest) SALT_LENGTH TAG_POSITION = subarray rest 0 IV_LENGTH"
    and "subarray (salt @ rest) TAG_POSITION ENCRYPTED_POSITION
           = subarray rest IV_LENGTH (IV_LENGTH + TAG_LENGTH)"
    and "subarray_from (salt @ rest) ENCRYPTED_POSITION
           = subarray_from rest (IV_LENGTH + TAG_LENGTH)"
  using assms
  by (simp_all add: subarray_def subarray_from_def TAG_POSITION_def ENCRYPTED_POSITION_def)

lemma decrypt_salt_independent:
  assumes s: "length salt = SALT_LENGTH" and s': "length salt' = SALT_LENGTH"
  shows "decrypt c (base64_encode (salt' @ rest)) = decrypt c (base64_encode (salt @ rest))"
proof -
  have n: "base64_encode (salt @ rest) \<noteq> []" "base64_encode (salt' @ rest) \<noteq> []"
    using s s' by (auto simp: base64_encode_empty_iff SALT_LENGTH_def)
  show ?thesis
    unfolding decrypt_nonempty[OF n(1)] decrypt_nonempty[OF n(2)] base64_roundtrip
      slices_after_salt[OF s] slices_after_salt[OF s'] ..
qed

lemma toy_getEncryptionKey: "getEncryptionKey toy_crypto = Inr toy_key"
  by (simp add: getEncryptionKey_def toy_crypto_def toy_key_def js_def)

lemma toy_cipher:
  "gcm_cipher toy_crypto key iv pt = (map (\<lambda>b. b + 1) pt, toy_tag key iv (map (\<lambda>b. b + 1) pt))"
  by (simp add: toy_crypto_def)

lemma toy_tag_length: "length (toy_tag key iv ct) = TAG_LENGTH"
  by (simp add: toy_tag_def TAG_LENGTH_def)

lemma toy_decipher:
  "iv \<noteq> [] \<Longrightarrow>
   gcm_decipher toy_crypto key iv (toy_tag key iv (map (\<lambda>b. b + 1) pt)) (map (\<lambda>b. b + 1) pt) = Some pt"
  by (simp add: toy_crypto_def comp_def)

lemma example_lengths:
  "length example_iv = IV_LENGTH" "length example_salt = SALT_LENGTH"
  "length tampered_salt = SALT_LENGTH" "example_iv \<noteq> []"
  by (simp_all add: example_iv_def example_salt_def tampered_salt_def IV_LENGTH_def SALT_LENGTH_def)

lemma toy_decrypt_encrypt:
  assumes "s \<noteq> []"
  shows "decrypt_encrypt toy_crypto example_iv example_salt s = Inr (utf8_decode (utf8_encode s))"
  using decrypt_encrypt_general[OF toy_getEncryptionKey example_lengths(1,2) toy_cipher
      toy_tag_length toy_decipher[OF example_lengths(4)] assms]
  by (simp add: decrypt_encrypt_def)

lemma lone_surrogate_utf8: "utf8_decode (utf8_encode [0xD800]) = [0xFFFD]"
  by (simp add: utf8_decode_encode lone_unit_def is_high_surrogate_def utf16_units_def)

lemma example_text_well_formed: "example_text \<noteq> [] \<and> well_formed example_text"
  by (simp add: example_text_def js_def well_formed_def is_high_surrogate_def is_low_surrogate_def)


























section \<open>Runs on the example data\<close>

lemma example_lookup:
  "submit_lookup env example_db (example_request l empty_body) =
     Inr \<lparr>sub_userId = 1, sub_role = ''student'',
          finalLevel = (case l of Some n \<Rightarrow> n | None \<Rightarrow> 0),
          encryptedData = empty_body, sub_paths = no_paths, existing = None\<rparr>"
  by (auto simp: submit_lookup_def example_db_def example_request_def empty_body_def
      validRoles_def example_user_def determineLevel_def l1_predicate_def l2_predicate_def
      l3_predicate_def encryptAccountNumber_def findOne_def split: option.splits)


lemma example_validate:
  assumes "mongoose env = example_mongoose" and "finalLevel sub \<le> 3"
    and "sub_role sub \<in> set validRoles"
  shows "validate (mongoose env) (new_verification env sub) = Inr (new_verification env sub)"
  using assms validRoles_schemaRoles[OF assms(3)]
  by (simp add: validate_Inr example_mongoose_def new_verification_def)

lemma example_stored: "stored example_mongoose v = v"
  by (simp add: stored_def example_mongoose_def)

lemma example_submit:
  assumes "(case l of Some n \<Rightarrow> n | None \<Rightarrow> 0) \<le> (3::nat)"
  shows "submitVerification example_env example_db (example_request l empty_body) =
     Inr (new_verification example_env
            \<lparr>sub_userId = 1, sub_role = ''student'',
             finalLevel = (case l of Some n \<Rightarrow> n | None \<Rightarrow> 0),
             encryptedData = empty_body, sub_paths = no_paths, existing = None\<rparr>,
          example_db\<lparr>Verification := [new_verification example_env
            \<lparr>sub_userId = 1, sub_role = ''student'',
             finalLevel = (case l of Some n \<Rightarrow> n | None \<Rightarrow> 0),
             encryptedData = empty_body, sub_paths = no_paths, existing = None\<rparr>]\<rparr>)"
proof -
  let ?sub = "\<lparr>sub_userId = 1, sub_role = ''student'',
             finalLevel = (case l of Some n \<Rightarrow> n | None \<Rightarrow> 0),
             encryptedData = empty_body, sub_paths = no_paths, existing = None\<rparr>"
  have m: "mongoose example_env = example_mongoose" by (simp add: example_env_def)
  have "validate (mongoose example_env) (new_verification example_env ?sub)
          = Inr (new_verification example_env ?sub)"
    by (rule example_validate[OF m]) (simp_all add: assms validRoles_def)
  then have "create (mongoose example_env) example_db (new_verification example_env ?sub) =
          Inr (new_verification example_env ?sub,
               example_db\<lparr>Verification := [new_verification example_env ?sub]\<rparr>)"
    by (simp add: create_Inr m example_stored) (simp add: example_db_def)
  then show ?thesis
    by (simp add: submitVerification_def example_lookup submit_store_def no_paths_def)
qed

section \<open>Level derivation and the submission path\<close>

text \<open>
  Claim C1.  The derivation step runs its tier tests in the order L0, L1, L2, L3 and
  every test that holds overwrites the candidate level, so the result is the level of
  the last tier whose test holds (0 when none does).  In particular, whenever the
  evidence has both an \<open>addressProof\<close> and a \<open>videoVerification\<close> section, the
  derived level is 3, whatever the identity-proof and role-specific evidence and
  whatever the role.
\<close>

theorem determineLevel_last_satisfied:
  "determineLevel u r d =
     last (0 # map fst (filter snd
       [(0, isEmailVerified u), (1, l1_predicate d), (2, l2_predicate r d), (3, l3_predicate d)]))
   \<and> (truthy (d addressProof) \<and> truthy (d videoVerification) \<longrightarrow> determineLevel u r d = 3)"
  by (simp add: determineLevel_def l3_predicate_def)

text \<open>
  Scenario C: an entrepreneur with address proof and video verification only, no
  identity proof and no role-specific evidence, derives level 3.
\<close>

theorem determineLevel_last_satisfied_witness:
  "truthy (scenario_c addressProof) \<and> truthy (scenario_c videoVerification) \<and>
   \<not> l1_predicate scenario_c \<and> \<not> l2_predicate ''entrepreneur'' scenario_c \<and>
   determineLevel example_user ''entrepreneur'' scenario_c = 3"
  using determineLevel_last_satisfied[of example_user "''entrepreneur''" scenario_c]
  by (simp add: scenario_c_def empty_body_def l1_predicate_def l2_predicate_def)

text \<open>
  Claim C8.  When the submission succeeds, the level of the record is the
  \<open>verificationLevel\<close> the caller supplied, if there is one, and the derived level
  only otherwise; the supplied level is not compared with the evidence.  The record is
  written with that level: unless the body names an \<open>_id\<close>, the collection then
  holds the record as written, and unless the body also names a \<open>userId\<close>, that is
  the record the store holds for the user and role.
\<close>

theorem submit_level_override:
  assumes "submitVerification env st req = Inr (v, st')"
  shows "\<exists>uid u. authUser req = Some uid \<and> User st uid = Some u \<and>
     verificationLevel v =
       (case body_verificationLevel req of
          Some l \<Rightarrow> l
        | None \<Rightarrow> determineLevel u (body_role req) (body_rest req)) \<and>
     verificationLevel (stored (mongoose env) v) = verificationLevel v \<and>
     (path_id (body_paths req) = None \<longrightarrow>
        stored (mongoose env) v \<in> set (Verification st') \<and>
        (path_userId (body_paths req) = None \<longrightarrow>
           findOne st' uid (body_role req) = Some (stored (mongoose env) v)))"
proof -
  from assms obtain sub where lk: "submit_lookup env st req = Inr sub"
    and stv: "submit_store env st sub = Inr (v, st')"
    by (auto simp: submitVerification_def split: sum.splits)
  note facts = submit_lookup_Inr[OF lk]
  from facts obtain u where u: "User st (sub_userId sub) = Some u"
    and fl: "finalLevel sub = (case body_verificationLevel req of Some l \<Rightarrow> l
                 | None \<Rightarrow> determineLevel u (body_role req) (body_rest req))"
    by blast
  have ex: "existing sub = findOne st (sub_userId sub) (body_role req)"
    and rl: "sub_role sub = body_role req" and au: "authUser req = Some (sub_userId sub)"
    and pa: "sub_paths sub = body_paths req"
    using facts by simp_all
  let ?m = "mongoose env"
  let ?P = "\<lambda>w. userId w = sub_userId sub \<and> role w = body_role req"
  have "verificationLevel v = finalLevel sub \<and>
        (path_id (body_paths req) = None \<longrightarrow>
           stored ?m v \<in> set (Verification st') \<and>
           (path_userId (body_paths req) = None \<longrightarrow>
              findOne st' (sub_userId sub) (body_role req) = Some (stored ?m v)))"
  proof (cases "existing sub")
    case None
    then have c: "create ?m st (new_verification env sub) = Inr (v, st')"
      using stv by (simp add: submit_store_def split: if_splits)
    then have val: "validate ?m (new_verification env sub) = Inr v"
      and st': "st' = st\<lparr>Verification := Verification st @ [stored ?m v]\<rparr>"
      by (simp_all add: create_Inr)
    from val have l: "verificationLevel v = finalLevel sub" "role v = body_role req"
      "userId v = (case path_userId (body_paths req) of Some i \<Rightarrow> i | None \<Rightarrow> sub_userId sub)"
      using rl pa by (auto simp: validate_Inr new_verification_def)
    have n: "find ?P (Verification st) = None" using None ex by (simp add: findOne_def)
    have "path_userId (body_paths req) = None \<longrightarrow>
            findOne st' (sub_userId sub) (body_role req) = Some (stored ?m v)"
      using l st' find_append_new[OF n, of "stored ?m v"] by (simp add: findOne_def stored_def)
    then show ?thesis using l st' by simp
  next
    case (Some old)
    then have f: "find ?P (Verification st) = Some old" using ex by (simp add: findOne_def)
    have s: "save ?m st old (assign_submission env sub old) = Inr (v, st')"
      using stv Some by (simp add: submit_store_def split: if_splits)
    have "verificationLevel v = finalLevel sub"
    proof -
      from s obtain r where "validate ?m (assign_submission env sub old) = Inr r"
        by (auto simp: save_def split: sum.splits)
      moreover from this s have "v = r" by (auto simp: save_def split: sum.splits if_splits)
      ultimately show ?thesis by (auto simp: validate_Inr assign_submission_def)
    qed
    moreover have "path_id (body_paths req) = None \<longrightarrow>
           stored ?m v \<in> set (Verification st') \<and>
           (path_userId (body_paths req) = None \<longrightarrow>
              findOne st' (sub_userId sub) (body_role req) = Some (stored ?m v))"
    proof
      assume i: "path_id (body_paths req) = None"
      then have same: "vid (assign_submission env sub old) = vid old"
        using pa by (simp add: assign_submission_def)
      from s have val: "validate ?m (assign_submission env sub old) = Inr v"
        and w: "\<exists>w \<in> set (Verification st). vid w = vid old"
        and st': "st' = st\<lparr>Verification :=
                    replace_first (\<lambda>w. vid w = vid old) (stored ?m v) (Verification st)\<rparr>"
        by (simp_all add: save_same_id[OF same])
      have mem: "stored ?m v \<in> set (Verification st')"
        using w st' by (simp add: replace_first_mem)
      have "path_userId (body_paths req) = None \<longrightarrow>
              findOne st' (sub_userId sub) (body_role req) = Some (stored ?m v)"
      proof
        assume "path_userId (body_paths req) = None"
        then have "?P (stored ?m v)"
          using val find_Some_mem[OF f] rl pa
          by (auto simp: validate_Inr assign_submission_def stored_def)
        from find_replace_first[OF f this, of "\<lambda>w. vid w = vid old"] st'
        show "findOne st' (sub_userId sub) (body_role req) = Some (stored ?m v)"
          by (simp add: findOne_def)
      qed
      then show "stored ?m v \<in> set (Verification st') \<and>
           (path_userId (body_paths req) = None \<longrightarrow>
              findOne st' (sub_userId sub) (body_role req) = Some (stored ?m v))"
        using mem by simp
    qed
    ultimately show ?thesis by simp
  qed
  then show ?thesis using u fl au by (auto simp: stored_def)
qed

text \<open>A submission with no evidence at all (derived level 0) that supplies level 3.\<close>

theorem submit_level_override_witness:
  "determineLevel example_user ''student'' empty_body = 0 \<and>
   path_id (body_paths (example_request (Some 3) empty_body)) = None \<and>
   path_userId (body_paths (example_request (Some 3) empty_body)) = None \<and>
   (\<exists>v st'. submitVerification example_env example_db (example_request (Some 3) empty_body)
              = Inr (v, st') \<and>
            verificationLevel v = 3 \<and> v \<in> set (Verification st') \<and>
            findOne st' 1 ''student'' = Some v)"
proof -
  have "determineLevel example_user ''student'' empty_body = 0"
    by (simp add: determineLevel_def l1_predicate_def l2_predicate_def l3_predicate_def
        empty_body_def)
  moreover have "\<exists>v st'. submitVerification example_env example_db (example_request (Some 3) empty_body)
              = Inr (v, st') \<and>
            verificationLevel v = 3 \<and> v \<in> set (Verification st') \<and>
            findOne st' 1 ''student'' = Some v"
    using submit_level_override[OF example_submit[of "Some 3"]] example_submit[of "Some 3"]
    by (auto simp: example_request_def no_paths_def example_env_def example_stored)
  ultimately show ?thesis by (simp add: example_request_def no_paths_def)
qed



section \<open>Review workflow\<close>

text \<open>
  Claim C9.  \<open>approveVerification\<close> has no precondition on the status of the record:
  for every record the id finds and the schema's validation accepts, whatever its
  status, the handler succeeds and sets the status to \<open>approved\<close> with \<open>reviewedBy\<close>
  and \<open>reviewedAt\<close>.  The record's level reaches the trust cache of the record's
  user only when that user had no cache object stored; a stored cache object is left
  as it was.
\<close>

theorem approve_any_status:
  assumes "connected st" and "admin req = Some reviewer"
    and "findById st (param_id req) = Some old"
    and "role old \<in> set schemaRoles" and "verificationLevel old \<le> 3"
    and "cast_evidence (mongoose env) (evidence old) = Some e"
  shows "\<exists>v st'. approveVerification env st req = Inr (v, st') \<and>
           status v = approved \<and> reviewedBy v = Some reviewer \<and>
           reviewedAt v = Some (now env) \<and>
           vid v = vid old \<and> userId v = userId old \<and> role v = role old \<and>
           verificationLevel v = verificationLevel old \<and>
           findById st' (param_id req) = Some (stored (mongoose env) v) \<and>
           (\<forall>u. User st (userId old) = Some u \<longrightarrow>
              (\<exists>u'. User st' (userId old) = Some u' \<and>
                 verificationLevels u' =
                   (case verificationLevels u of
                      None \<Rightarrow> Some [role old \<mapsto> verificationLevel old]
                    | Some m \<Rightarrow> Some m)))"
proof -
  from approve_found[OF assms] obtain v st' where
    r: "approveVerification env st req = Inr (v, st')"
    and v: "v = old\<lparr>status := approved, reviewedBy := Some reviewer,
                   reviewedAt := Some (now env),
                   adminNotes := (if truthy_string (body_adminNotes req)
                                  then body_adminNotes req else adminNotes old),
                   evidence := e\<rparr>"
    and vs: "Verification st' =
               replace_first (\<lambda>w. vid w = vid old) (stored (mongoose env) v) (Verification st)"
    and us: "(case User st (userId old) of
              None \<Rightarrow> User st' = User st
            | Some u \<Rightarrow>
                (\<exists>u'. User st' = (User st)(userId old \<mapsto> u') \<and>
                   verificationLevels u' =
                     (case verificationLevels u of
                        None \<Rightarrow> Some [role old \<mapsto> verificationLevel old]
                      | Some m \<Rightarrow> Some m)))"
    by blast
  have fo: "find (\<lambda>w. vid w = param_id req) (Verification st) = Some old"
    using assms(3) by (simp add: findById_def)
  have "vid old = param_id req" using find_Some_mem[OF fo] by simp
  then have "vid (stored (mongoose env) v) = param_id req" using v by (simp add: stored_def)
  from find_replace_first[OF fo this, of "\<lambda>w. vid w = vid old"] vs
  have f: "findById st' (param_id req) = Some (stored (mongoose env) v)"
    by (simp add: findById_def)
  have c: "\<forall>u. User st (userId old) = Some u \<longrightarrow>
              (\<exists>u'. User st' (userId old) = Some u' \<and>
                 verificationLevels u' =
                   (case verificationLevels u of
                      None \<Rightarrow> Some [role old \<mapsto> verificationLevel old]
                    | Some m \<Rightarrow> Some m))"
    using us by auto
  show ?thesis using r v f c by (intro exI[of _ v] exI[of _ st']) simp
qed

text \<open>
  A rejected record is approved directly.  Its user has a stored cache, with a level
  for the role \<open>mentor\<close>: after the approve the cache has no level for the record's
  role \<open>student\<close>.
\<close>

theorem approve_any_status_witness:
  "status (example_record rejected 1) = rejected \<and>
   (\<exists>v st'. approveVerification example_env rejected_db (example_review None) = Inr (v, st') \<and>
      status v = approved \<and> reviewedBy v = Some 9 \<and> reviewedAt v = Some 1000 \<and>
      role v = ''student'' \<and> verificationLevel v = 1 \<and>
      (\<exists>u' m. User st' 1 = Some u' \<and> verificationLevels u' = Some m \<and>
               m ''student'' = None \<and> m ''mentor'' = Some 2))"
proof -
  have c: "connected rejected_db" and a: "admin (example_review None) = Some 9"
    and f: "findById rejected_db (param_id (example_review None)) = Some (example_record rejected 1)"
    and s: "role (example_record rejected 1) \<in> set schemaRoles"
      "verificationLevel (example_record rejected 1) \<le> 3"
      "cast_evidence (mongoose example_env) (evidence (example_record rejected 1))
         = Some (evidence (example_record rejected 1))"
    and u: "User rejected_db 1
              = Some (example_user\<lparr>verificationLevels := Some [''mentor'' \<mapsto> 2]\<rparr>)"
    by (simp_all add: rejected_db_def example_review_def findById_def example_record_def
        schemaRoles_def example_env_def example_mongoose_def)
  show ?thesis
    using approve_any_status[OF c a f s] u
    by (auto simp: example_record_def example_env_def)
qed

text \<open>
  Claim C7.  After a successful approve, the cached level of the record's user for
  the record's role is the record's level when the user had no cache object stored;
  a user with a stored cache object keeps that object as it was, so a level cached
  before for the role is not overwritten.  \<open>rejectVerification\<close> leaves the \<open>User\<close>
  collection, and so every trust cache, unchanged, whatever its outcome.
\<close>

theorem approve_keeps_stored_cache_reject_keeps_cache:
  "(approveVerification env st req = Inr (v, st') \<longrightarrow> User st (userId v) = Some u \<longrightarrow>
      (\<exists>u'. User st' (userId v) = Some u' \<and>
         verificationLevels u' =
           (case verificationLevels u of
              None \<Rightarrow> Some [role v \<mapsto> verificationLevel v]
            | Some m \<Rightarrow> Some m)))
   \<and> User (db_after st (rejectVerification env st req')) = User st"
proof (intro conjI impI)
  assume a: "approveVerification env st req = Inr (v, st')" and u: "User st (userId v) = Some u"
  from approve_Inr[OF a] obtain reviewer old e where
    h: "connected st" "admin req = Some reviewer" "findById st (param_id req) = Some old"
       "role old \<in> set schemaRoles" "verificationLevel old \<le> 3"
       "cast_evidence (mongoose env) (evidence old) = Some e"
    by blast
  from approve_found[OF h] a
  have v: "v = old\<lparr>status := approved, reviewedBy := Some reviewer,
                   reviewedAt := Some (now env),
                   adminNotes := (if truthy_string (body_adminNotes req)
                                  then body_adminNotes req else adminNotes old),
                   evidence := e\<rparr>"
    and us: "(case User st (userId old) of
              None \<Rightarrow> User st' = User st
            | Some u \<Rightarrow>
                (\<exists>u'. User st' = (User st)(userId old \<mapsto> u') \<and>
                   verificationLevels u' =
                     (case verificationLevels u of
                        None \<Rightarrow> Some [role old \<mapsto> verificationLevel old]
                      | Some m \<Rightarrow> Some m)))"
    by auto
  have vr: "userId v = userId old" "role v = role old"
    "verificationLevel v = verificationLevel old"
    using v by simp_all
  have uo: "User st (userId old) = Some u" using u vr by simp
  show "\<exists>u'. User st' (userId v) = Some u' \<and>
         verificationLevels u' =
           (case verificationLevels u of
              None \<Rightarrow> Some [role v \<mapsto> verificationLevel v]
            | Some m \<Rightarrow> Some m)"
    using us uo vr by (cases "verificationLevels u") auto
next
  show "User (db_after st (rejectVerification env st req')) = User st"
    by (rule reject_keeps_users)
qed

text \<open>
  Approving a level-1 record of a user with level 3 cached for the role leaves the
  cached level at 3; a reject changes nothing.
\<close>

theorem approve_keeps_stored_cache_reject_keeps_cache_witness:
  "(\<exists>v st' u' m'. approveVerification example_env demote_db (example_review None) = Inr (v, st') \<and>
      role v = ''student'' \<and> verificationLevel v = 1 \<and>
      User st' 1 = Some u' \<and> verificationLevels u' = Some m' \<and> m' ''student'' = Some 3) \<and>
   User (db_after demote_db (rejectVerification example_env demote_db
           (example_review (Some ''document blurry'')))) = User demote_db"
proof -
  have c: "connected demote_db" and a: "admin (example_review None) = Some 9"
    and f: "findById demote_db (param_id (example_review None)) = Some (example_record pending 1)"
    and s: "role (example_record pending 1) \<in> set schemaRoles"
      "verificationLevel (example_record pending 1) \<le> 3"
      "cast_evidence (mongoose example_env) (evidence (example_record pending 1))
         = Some (evidence (example_record pending 1))"
    by (simp_all add: demote_db_def example_review_def findById_def example_record_def
        schemaRoles_def example_env_def example_mongoose_def)
  from approve_found[OF c a f s] obtain v st' where
    r: "approveVerification example_env demote_db (example_review None) = Inr (v, st')"
    and v: "userId v = 1" "role v = ''student''" "verificationLevel v = 1"
    by (auto simp: example_record_def)
  have u: "User demote_db (userId v) =
             Some (example_user\<lparr>verificationLevels := Some [''student'' \<mapsto> 3]\<rparr>)"
    using v by (simp add: demote_db_def)
  from approve_keeps_stored_cache_reject_keeps_cache[of example_env demote_db
      "example_review None" v st'
      "example_user\<lparr>verificationLevels := Some [''student'' \<mapsto> 3]\<rparr>"
      "example_review (Some ''document blurry'')"] r u v
  show ?thesis by auto
qed

section \<open>Access gate\<close>

text \<open>
  Claim C4, as stated: a user with no cached level, no approved record and an
  unverified email is below L0, so the gate refuses even a required level of 0.
  The code has no value below 0: such a user keeps the initial \<open>userLevel = 0\<close> and
  passes a gate that requires level 0.
\<close>

theorem gate_passes_without_any_level:
  "verificationLevels example_user = None \<and> \<not> isEmailVerified example_user \<and>
   findOneApproved example_db 1 ''student'' = None \<and>
   requireVerificationLevel 0 (Some ''student'') example_db (Some 1) = Inr (0, ''student'')"
  by (simp add: example_user_def example_db_def findOneApproved_def requireVerificationLevel_def
      resolveUserLevel_def truthy_string_def)

text \<open>
  Claim C4, amended.  A user with no cached level for the checked role and no
  approved record for it has the effective level 0, whether or not the email is
  verified: the gate passes when the required level is 0 and fails with the 403
  error, naming the required level and \<open>L0 (Basic)\<close>, for every higher required level.
\<close>

theorem gate_default_level_zero:
  assumes "User st uid = Some u" and "r \<noteq> []"
    and "(case verificationLevels u of None \<Rightarrow> None | Some m \<Rightarrow> m r) = None"
    and "findOneApproved st uid r = None"
  shows "resolveUserLevel st uid u r = 0 \<and>
         requireVerificationLevel 0 (Some r) st (Some uid) = Inr (0, r) \<and>
         (0 < requiredLevel \<longrightarrow>
            requireVerificationLevel requiredLevel (Some r) st (Some uid) =
              Inl (AppError (''This action requires '' @ levelName requiredLevel @
                             '' verification. Your current level is L0 (Basic).'') 403))"
proof -
  have l: "resolveUserLevel st uid u r = 0"
    using assms(3,4) by (auto simp: resolveUserLevel_def split: option.splits)
  have n: "levelName 0 = ''L0 (Basic)''" by (simp add: levelName_def levelNames_def)
  show ?thesis using assms(1,2) l n
    by (simp add: requireVerificationLevel_def truthy_string_def)
qed

text \<open>A user with no level at all: admitted at required level 0, refused at level 1.\<close>

theorem gate_default_level_zero_witness:
  "User example_db 1 = Some example_user \<and> \<not> isEmailVerified example_user \<and>
   verificationLevels example_user = None \<and> findOneApproved example_db 1 ''student'' = None \<and>
   requireVerificationLevel 0 (Some ''student'') example_db (Some 1) = Inr (0, ''student'') \<and>
   requireVerificationLevel 1 (Some ''student'') example_db (Some 1) =
     Inl (AppError ''This action requires L1 (ID Verified) verification. Your current level is L0 (Basic).'' 403)"
proof -
  have a: "User example_db 1 = Some example_user" and b: "''student'' \<noteq> []"
    and c: "(case verificationLevels example_user of None \<Rightarrow> None | Some m \<Rightarrow> m ''student'') = None"
    and d: "findOneApproved example_db 1 ''student'' = None"
    by (simp_all add: example_db_def example_user_def findOneApproved_def)
  show ?thesis
    using gate_default_level_zero[OF a b c d, of 1] a d
    by (simp add: example_user_def levelName_def levelNames_def)
qed

text \<open>
  Claim C5.  The claim says a cached level, 0 included, is used as it is and the
  approved record is not consulted.  \<open>requireVerificationLevel\<close> tests
  \<open>userLevel === 0\<close> to decide whether the cache had a value, so a cached 0 sends it
  to the \<open>Verification\<close> collection: with a cached 0 and an approved record of level
  2 it resolves level 2 and passes a gate that requires 2, while the helper
  \<open>getUserVerificationLevel\<close> returns the cached 0 on the same data.
\<close>

theorem gate_cached_zero_reads_record:
  "resolveUserLevel cached_zero_db 1
      (example_user\<lparr>verificationLevels := Some [''student'' \<mapsto> 0]\<rparr>) ''student'' = 2 \<and>
   requireVerificationLevel 2 (Some ''student'') cached_zero_db (Some 1) = Inr (2, ''student'') \<and>
   getUserVerificationLevel cached_zero_db 1 ''student'' = 0"
  by (simp add: cached_zero_db_def example_user_def example_record_def findOneApproved_def
      requireVerificationLevel_def resolveUserLevel_def truthy_string_def
      getUserVerificationLevel_def)

section \<open>Racing first submissions\<close>




section \<open>Encryption round trip and tampering\<close>

text \<open>
  Claim C2, as stated: \<open>decrypt(encrypt(s)) = s\<close> for every non-empty string \<open>s\<close>.
  The plaintext travels as UTF-8, which has no encoding of an unpaired surrogate: the
  one-unit string U+D800 is enciphered as U+FFFD and comes back as U+FFFD, with a
  cipher that deciphers exactly what it enciphered.
\<close>

theorem lone_surrogate_not_restored:
  "[0xD800] \<noteq> ([] :: jsstring) \<and>
   gcm_decipher toy_crypto toy_key example_iv
      (snd (gcm_cipher toy_crypto toy_key example_iv (utf8_encode [0xD800])))
      (fst (gcm_cipher toy_crypto toy_key example_iv (utf8_encode [0xD800])))
     = Some (utf8_encode [0xD800]) \<and>
   decrypt_encrypt toy_crypto example_iv example_salt [0xD800] = Inr [0xFFFD] \<and>
   decrypt_encrypt toy_crypto example_iv example_salt [0xD800] \<noteq> Inr [0xD800]"
  by (simp add: toy_decrypt_encrypt lone_surrogate_utf8 toy_cipher toy_decipher example_lengths(4))

text \<open>
  Claim C2, amended.  For every non-empty string \<open>s\<close> that is well-formed UTF-16, with
  a usable key (\<open>getEncryptionKey\<close> returns one), random bytes of the lengths asked
  for, and a cipher that returns a 16-byte tag and deciphers what it enciphered:
  \<open>encrypt\<close> returns the base64 text of salt(64), iv(16), tag(16) and ciphertext in this
  order, and \<open>decrypt\<close>, slicing at the same offsets, returns \<open>s\<close>.
\<close>

theorem decrypt_encrypt_roundtrip:
  assumes "getEncryptionKey c = Inr key"
    and "length iv = IV_LENGTH" and "length salt = SALT_LENGTH"
    and "gcm_cipher c key iv (utf8_encode s) = (encrypted, tag)" and "length tag = TAG_LENGTH"
    and "gcm_decipher c key iv tag encrypted = Some (utf8_encode s)"
    and "s \<noteq> []" and "well_formed s"
  shows "encrypt c iv salt s = Inr (base64_encode (salt @ iv @ tag @ encrypted)) \<and>
         decrypt c (base64_encode (salt @ iv @ tag @ encrypted)) = Inr s \<and>
         decrypt_encrypt c iv salt s = Inr s"
  using decrypt_encrypt_general[OF assms(1-7)] utf8_roundtrip[OF assms(8)]
  by (simp add: decrypt_encrypt_def)

text \<open>The account number \<open>1234567890\<close> with the stand-in cipher.\<close>

theorem decrypt_encrypt_roundtrip_witness:
  "example_text \<noteq> [] \<and> well_formed example_text \<and>
   decrypt_encrypt toy_crypto example_iv example_salt example_text = Inr example_text"
  using decrypt_encrypt_roundtrip[OF toy_getEncryptionKey example_lengths(1,2) toy_cipher
      toy_tag_length toy_decipher[OF example_lengths(4)], of example_text]
    example_text_well_formed
  by simp




end
